theory Spec2Isabelle
  imports Complex_Main "HOL-Library.AList"
begin

section \<open>Data model of \<open>tobias/motifs/motif_clust.py\<close>\<close>

text \<open>
  Python floats are modelled as \<^typ>\<open>real\<close>: the comparisons, the mean and the rounding
  are those of the source, computed exactly; the rounding error of float64 arithmetic and
  the sign of a zero are not represented. A dict is an association list in insertion
  order (Python dicts keep it, and \<open>generate_similarity_matrix\<close> reads the key order);
  the keys of a dict are distinct.
\<close>

datatype error = KeyError | IndexError | UnboundLocalError

text \<open>A gimmemotifs motif object: the identifier \<open>m.id\<close> and the matrix.\<close>

record motif =
  id' :: string
  pfm :: "real list list"

text \<open>One entry of \<open>get_all_scores\<close>: \<open>[score, pos, strand]\<close>.\<close>

type_synonym pairwise_score = "real \<times> int \<times> int"

type_synonym score_dict = "(string \<times> (string \<times> pairwise_score) list) list"

text \<open>
  The primitives of gimmemotifs that the consensus builder calls:
  \<open>Motif.average_motifs(other, pos, orientation)\<close> and
  \<open>MotifComparer.get_all_scores(motifs, motifs, match="total", metric="pcc", combine="mean")\<close>.
\<close>

record gimme =
  average_motifs :: "motif \<Rightarrow> motif \<Rightarrow> int \<Rightarrow> int \<Rightarrow> motif"
  get_all_scores :: "motif list \<Rightarrow> motif list \<Rightarrow> score_dict"

text \<open>\<open>d[a][b]\<close> on a dict of dicts: a missing key raises KeyError.\<close>

definition getitem2 :: "(string \<times> (string \<times> 'v) list) list \<Rightarrow> string \<Rightarrow> string \<Rightarrow> error + 'v" where
  "getitem2 d a b =
     (case map_of d a of
        None \<Rightarrow> Inl KeyError
      | Some row \<Rightarrow> (case map_of row b of None \<Rightarrow> Inl KeyError | Some v \<Rightarrow> Inr v))"

section \<open>Consensus builder\<close>

text \<open>\<open>itertools.combinations(motifs, 2)\<close>: the pairs of positions \<open>i < j\<close>, in lexicographic order.\<close>

fun combinations2 :: "'a list \<Rightarrow> ('a \<times> 'a) list" where
  "combinations2 [] = []"
| "combinations2 (x # xs) = map (Pair x) xs @ combinations2 xs"

text \<open>
  The local variables of the selection loop of \<open>generate_consensus_motif\<close>.
  \<open>merge_1\<close> and \<open>merge_2\<close> are bound together, and unbound before the first assignment;
  \<open>score\<close> is the loop's own variable, rebound at every pair.
\<close>

record loop_vars =
  max_score :: real
  merge :: "(motif \<times> motif) option"
  score :: "pairwise_score option"

text \<open>
  \<^verbatim>\<open>
  max_score = 0
  for motif_1, motif_2 in itertools.combinations(motifs, 2):
      score = similarity_dict[motif_1.id][motif_2.id]
      if score[0] >= max_score:
          max_score = score[0]
          merge_1 = motif_1
          merge_2 = motif_2
  \<close>
\<close>

fun select_loop :: "score_dict \<Rightarrow> (motif \<times> motif) list \<Rightarrow> loop_vars \<Rightarrow> error + loop_vars" where
  "select_loop similarity_dict [] v = Inr v"
| "select_loop similarity_dict ((motif_1, motif_2) # ps) v =
     (case getitem2 similarity_dict (id' motif_1) (id' motif_2) of
        Inl e \<Rightarrow> Inl e
      | Inr s \<Rightarrow>
          select_loop similarity_dict ps
            (if fst s \<ge> max_score v
             then \<lparr>max_score = fst s, merge = Some (motif_1, motif_2), score = Some s\<rparr>
             else v\<lparr>score := Some s\<rparr>))"

definition loop_init :: loop_vars where
  "loop_init = \<lparr>max_score = 0, merge = None, score = None\<rparr>"

text \<open>
  One level of \<open>generate_consensus_motif\<close> on a list that is not of length 1: the loop, the
  call of \<open>average_motifs\<close> with \<open>pos=score[1], orientation=score[2]\<close>, the new identifier,
  and the list after \<open>append\<close> and the two \<open>remove\<close> (which drops the first equal element).
  The record keeps the locals of the level: the arguments of the call are observable.
  Reading \<open>merge_1\<close> while it is unbound raises UnboundLocalError.
\<close>

record level =
  merge_1 :: motif
  merge_2 :: motif
  pos :: int
  orientation :: int
  average_motif :: motif
  motifs_out :: "motif list"

definition merge_level :: "gimme \<Rightarrow> motif list \<Rightarrow> score_dict \<Rightarrow> error + level" where
  "merge_level mc motifs similarity_dict =
     (case select_loop similarity_dict (combinations2 motifs) loop_init of
        Inl e \<Rightarrow> Inl e
      | Inr v \<Rightarrow>
          (case merge v of
             None \<Rightarrow> Inl UnboundLocalError
           | Some (m1, m2) \<Rightarrow>
               (case score v of
                  None \<Rightarrow> Inl UnboundLocalError
                | Some s \<Rightarrow>
                    (let avg = (average_motifs mc m1 m2 (fst (snd s)) (snd (snd s)))
                                 \<lparr>id' := id' m1 @ ''_'' @ id' m2\<rparr>
                     in Inr \<lparr>merge_1 = m1, merge_2 = m2,
                             pos = fst (snd s), orientation = snd (snd s),
                             average_motif = avg,
                             motifs_out = remove1 m2 (remove1 m1 (motifs @ [avg]))\<rparr>))))"

text \<open>
  The result of \<open>generate_consensus_motif\<close>: the returned motif, the argument list as the
  call leaves it (the source mutates it in place), and the levels that merged a pair, in
  order.
\<close>

record consensus =
  cons_motif :: motif
  motifs_final :: "motif list"
  merges :: "level list"

lemma combinations2_mem:
  "(a, b) \<in> set (combinations2 xs) \<Longrightarrow> a \<in> set xs \<and> b \<in> set (remove1 a xs)"
proof (induction xs)
  case Nil
  then show ?case by simp
next
  case (Cons x xs)
  from Cons.prems have "(a = x \<and> b \<in> set xs) \<or> (a, b) \<in> set (combinations2 xs)"
    by auto
  then show ?case
  proof
    assume "a = x \<and> b \<in> set xs"
    then show ?thesis by simp
  next
    assume "(a, b) \<in> set (combinations2 xs)"
    with Cons.IH have ih: "a \<in> set xs" "b \<in> set (remove1 a xs)" by simp_all
    show ?thesis
    proof (cases "a = x")
      case True
      with ih show ?thesis using notin_set_remove1 by fastforce
    next
      case False
      with ih show ?thesis by simp
    qed
  qed
qed

lemma length_remove1_mem: "x \<in> set xs \<Longrightarrow> Suc (length (remove1 x xs)) = length xs"
  by (induction xs) auto

lemma select_loop_merge_mem:
  "select_loop d ps v = Inr v' \<Longrightarrow> merge v' = Some p \<Longrightarrow>
   merge v = Some p \<or> p \<in> set ps"
proof (induction ps arbitrary: v)
  case Nil
  then show ?case by simp
next
  case (Cons q ps)
  obtain a b where q: "q = (a, b)" by (cases q)
  from Cons.prems(1) q obtain s where
    s: "getitem2 d (id' a) (id' b) = Inr s" and
    rec: "select_loop d ps
            (if fst s \<ge> max_score v
             then \<lparr>max_score = fst s, merge = Some (a, b), score = Some s\<rparr>
             else v\<lparr>score := Some s\<rparr>) = Inr v'"
    by (auto split: sum.splits)
  from Cons.IH [OF rec Cons.prems(2)] q show ?case
    by (auto split: if_splits)
qed

lemma merge_level_length:
  assumes "merge_level mc motifs d = Inr lv"
  shows "Suc (length (motifs_out lv)) = length motifs"
proof -
  from assms obtain v s where
    v: "select_loop d (combinations2 motifs) loop_init = Inr v" and
    m: "merge v = Some (merge_1 lv, merge_2 lv)" and
    out: "motifs_out lv =
            remove1 (merge_2 lv) (remove1 (merge_1 lv) (motifs @ [average_motif lv]))"
    by (auto simp: merge_level_def Let_def split: sum.splits option.splits prod.splits)
  from select_loop_merge_mem [OF v m]
  have "(merge_1 lv, merge_2 lv) \<in> set (combinations2 motifs)"
    by (simp add: loop_init_def)
  then have a: "merge_1 lv \<in> set motifs" and b: "merge_2 lv \<in> set (remove1 (merge_1 lv) motifs)"
    by (auto dest: combinations2_mem)
  let ?R = "remove1 (merge_1 lv) motifs"
  from a have r1: "remove1 (merge_1 lv) (motifs @ [average_motif lv]) = ?R @ [average_motif lv]"
    by (simp add: remove1_append)
  from b have r2: "remove1 (merge_2 lv) (?R @ [average_motif lv]) =
                   remove1 (merge_2 lv) ?R @ [average_motif lv]"
    by (simp add: remove1_append)
  from a have l1: "Suc (length ?R) = length motifs"
    by (rule length_remove1_mem)
  from b have l2: "Suc (length (remove1 (merge_2 lv) ?R)) = length ?R"
    by (rule length_remove1_mem)
  from out r1 r2 have "length (motifs_out lv) = Suc (length (remove1 (merge_2 lv) ?R))"
    by simp
  with l1 l2 show ?thesis by simp
qed

text \<open>
  \<^verbatim>\<open>
  def generate_consensus_motif(motifs, similarity_dict):
      mc = MotifComparer()
      if len(motifs) == 1:
          return motifs[0]
      ... (one level, above) ...
      sim_dict = mc.get_all_scores(motifs, motifs, match = "total", metric = "pcc", combine = "mean" )
      cons_motif = generate_consensus_motif(motifs, sim_dict)
      return cons_motif
  \<close>
\<close>

function generate_consensus_motif :: "gimme \<Rightarrow> motif list \<Rightarrow> score_dict \<Rightarrow> error + consensus" where
  "generate_consensus_motif mc motifs similarity_dict =
     (if length motifs = 1
      then Inr \<lparr>cons_motif = motifs ! 0, motifs_final = motifs, merges = []\<rparr>
      else
        (case merge_level mc motifs similarity_dict of
           Inl e \<Rightarrow> Inl e
         | Inr lv \<Rightarrow>
             (case generate_consensus_motif mc (motifs_out lv)
                     (get_all_scores mc (motifs_out lv) (motifs_out lv)) of
                Inl e \<Rightarrow> Inl e
              | Inr r \<Rightarrow> Inr (r\<lparr>merges := lv # merges r\<rparr>))))"
  by pat_completeness auto
termination
proof (relation "measure (\<lambda>(mc, motifs, d). length motifs)")
  show "wf (measure (\<lambda>(mc, motifs, d). length motifs))" by simp
next
  fix mc :: gimme and motifs :: "motif list" and similarity_dict :: score_dict and lv :: level
  assume "merge_level mc motifs similarity_dict = Inr lv"
  then have "Suc (length (motifs_out lv)) = length motifs"
    by (rule merge_level_length)
  then show "((mc, motifs_out lv, get_all_scores mc (motifs_out lv) (motifs_out lv)),
              (mc, motifs, similarity_dict)) \<in> measure (\<lambda>(mc, motifs, d). length motifs)"
    by simp
qed

declare generate_consensus_motif.simps [simp del]

subsection \<open>The selection loop keeps the last maximum\<close>

lemma select_loop_last_max:
  assumes "\<forall>p\<in>set ps. \<exists>off ori. getitem2 d (id' (fst p)) (id' (snd p)) = Inr (f p, off, ori)"
  shows "\<exists>v'. select_loop d ps v = Inr v' \<and> (ps \<noteq> [] \<longrightarrow> score v' \<noteq> None) \<and>
     ((merge v' = merge v \<and> max_score v' = max_score v \<and> (\<forall>j<length ps. f (ps ! j) < max_score v)) \<or>
      (\<exists>i<length ps. merge v' = Some (ps ! i) \<and> max_score v' = f (ps ! i) \<and>
          max_score v \<le> f (ps ! i) \<and>
          (\<forall>j<length ps. f (ps ! j) \<le> f (ps ! i)) \<and>
          (\<forall>j<length ps. i < j \<longrightarrow> f (ps ! j) < f (ps ! i))))"
  using assms
proof (induction ps arbitrary: v)
  case Nil
  then show ?case by simp
next
  case (Cons p ps)
  obtain a b where p: "p = (a, b)" by (cases p)
  from Cons.prems p obtain off ori where
    s: "getitem2 d (id' a) (id' b) = Inr (f p, off, ori)" by auto
  let ?v1 = "if f p \<ge> max_score v
             then \<lparr>max_score = f p, merge = Some (a, b), score = Some (f p, off, ori)\<rparr>
             else v\<lparr>score := Some (f p, off, ori)\<rparr>"
  have step: "select_loop d (p # ps) v = select_loop d ps ?v1"
    using s p by simp
  from Cons.prems have rest: "\<forall>p\<in>set ps. \<exists>off ori. getitem2 d (id' (fst p)) (id' (snd p)) = Inr (f p, off, ori)"
    by simp
  from Cons.IH [OF rest, of ?v1] obtain v' where
    r: "select_loop d ps ?v1 = Inr v'" and
    sc: "ps \<noteq> [] \<longrightarrow> score v' \<noteq> None" and
    alt: "(merge v' = merge ?v1 \<and> max_score v' = max_score ?v1 \<and> (\<forall>j<length ps. f (ps ! j) < max_score ?v1)) \<or>
      (\<exists>i<length ps. merge v' = Some (ps ! i) \<and> max_score v' = f (ps ! i) \<and>
          max_score ?v1 \<le> f (ps ! i) \<and>
          (\<forall>j<length ps. f (ps ! j) \<le> f (ps ! i)) \<and>
          (\<forall>j<length ps. i < j \<longrightarrow> f (ps ! j) < f (ps ! i)))"
    by blast
  have sc': "score v' \<noteq> None"
  proof (cases ps)
    case Nil
    with r show ?thesis by (auto split: if_splits)
  next
    case (Cons q qs)
    with sc show ?thesis by simp
  qed
  from alt show ?case
  proof
    assume A: "merge v' = merge ?v1 \<and> max_score v' = max_score ?v1 \<and> (\<forall>j<length ps. f (ps ! j) < max_score ?v1)"
    show ?thesis
    proof (cases "f p \<ge> max_score v")
      case True
      with A have "merge v' = Some ((p # ps) ! 0)" "max_score v' = f ((p # ps) ! 0)"
        "max_score v \<le> f ((p # ps) ! 0)"
        "\<forall>j<length (p # ps). f ((p # ps) ! j) \<le> f ((p # ps) ! 0)"
        "\<forall>j<length (p # ps). 0 < j \<longrightarrow> f ((p # ps) ! j) < f ((p # ps) ! 0)"
        using p by (auto simp: nth_Cons split: nat.splits)
      then have "\<exists>i<length (p # ps). merge v' = Some ((p # ps) ! i) \<and> max_score v' = f ((p # ps) ! i) \<and>
          max_score v \<le> f ((p # ps) ! i) \<and>
          (\<forall>j<length (p # ps). f ((p # ps) ! j) \<le> f ((p # ps) ! i)) \<and>
          (\<forall>j<length (p # ps). i < j \<longrightarrow> f ((p # ps) ! j) < f ((p # ps) ! i))"
        by (intro exI [of _ 0]) simp
      with step r sc' show ?thesis by simp
    next
      case False
      with A have "merge v' = merge v \<and> max_score v' = max_score v \<and>
          (\<forall>j<length (p # ps). f ((p # ps) ! j) < max_score v)"
        by (auto simp: nth_Cons split: nat.splits)
      with step r sc' show ?thesis by simp
    qed
  next
    assume "\<exists>i<length ps. merge v' = Some (ps ! i) \<and> max_score v' = f (ps ! i) \<and>
          max_score ?v1 \<le> f (ps ! i) \<and>
          (\<forall>j<length ps. f (ps ! j) \<le> f (ps ! i)) \<and>
          (\<forall>j<length ps. i < j \<longrightarrow> f (ps ! j) < f (ps ! i))"
    then obtain i where i: "i < length ps" "merge v' = Some (ps ! i)" "max_score v' = f (ps ! i)"
          "max_score ?v1 \<le> f (ps ! i)"
          "\<forall>j<length ps. f (ps ! j) \<le> f (ps ! i)"
          "\<forall>j<length ps. i < j \<longrightarrow> f (ps ! j) < f (ps ! i)"
      by blast
    from i(4) have b1: "max_score v \<le> f (ps ! i)" and b2: "f p \<le> f (ps ! i)"
      by (auto split: if_splits)
    have "Suc i < length (p # ps)" "merge v' = Some ((p # ps) ! Suc i)"
         "max_score v' = f ((p # ps) ! Suc i)" "max_score v \<le> f ((p # ps) ! Suc i)"
      using i b1 by simp_all
    moreover have "\<forall>j<length (p # ps). f ((p # ps) ! j) \<le> f ((p # ps) ! Suc i)"
      using i(5) b2 by (auto simp: nth_Cons split: nat.splits)
    moreover have "\<forall>j<length (p # ps). Suc i < j \<longrightarrow> f ((p # ps) ! j) < f ((p # ps) ! Suc i)"
      using i(6) by (auto simp: nth_Cons split: nat.splits)
    ultimately have "\<exists>i<length (p # ps). merge v' = Some ((p # ps) ! i) \<and> max_score v' = f ((p # ps) ! i) \<and>
          max_score v \<le> f ((p # ps) ! i) \<and>
          (\<forall>j<length (p # ps). f ((p # ps) ! j) \<le> f ((p # ps) ! i)) \<and>
          (\<forall>j<length (p # ps). i < j \<longrightarrow> f ((p # ps) ! j) < f ((p # ps) ! i))"
      by blast
    with step r sc' show ?thesis by simp
  qed
qed

lemma merge_level_last_max:
  assumes sc: "\<forall>p\<in>set (combinations2 motifs).
            \<exists>off ori. getitem2 d (id' (fst p)) (id' (snd p)) = Inr (f p, off, ori)"
    and nn: "\<forall>p\<in>set (combinations2 motifs). 0 \<le> f p"
    and len: "2 \<le> length motifs"
  shows "\<exists>lv i. merge_level mc motifs d = Inr lv \<and> i < length (combinations2 motifs) \<and>
           combinations2 motifs ! i = (merge_1 lv, merge_2 lv) \<and>
           (\<forall>j<length (combinations2 motifs).
               f (combinations2 motifs ! j) \<le> f (combinations2 motifs ! i)) \<and>
           (\<forall>j<length (combinations2 motifs).
               i < j \<longrightarrow> f (combinations2 motifs ! j) < f (combinations2 motifs ! i))"
proof -
  let ?cs = "combinations2 motifs"
  from len obtain x y zs where "motifs = x # y # zs"
    by (cases motifs; cases "tl motifs"; auto)
  then have ne: "?cs \<noteq> []" by simp
  from select_loop_last_max [OF sc, of loop_init] obtain v' where
    r: "select_loop d ?cs loop_init = Inr v'" and
    s: "score v' \<noteq> None" and
    alt: "(merge v' = merge loop_init \<and> max_score v' = max_score loop_init \<and>
            (\<forall>j<length ?cs. f (?cs ! j) < max_score loop_init)) \<or>
      (\<exists>i<length ?cs. merge v' = Some (?cs ! i) \<and> max_score v' = f (?cs ! i) \<and>
          max_score loop_init \<le> f (?cs ! i) \<and>
          (\<forall>j<length ?cs. f (?cs ! j) \<le> f (?cs ! i)) \<and>
          (\<forall>j<length ?cs. i < j \<longrightarrow> f (?cs ! j) < f (?cs ! i)))"
    using ne by blast
  from ne have "0 < length ?cs" by simp
  with nn have "\<not> f (?cs ! 0) < 0" by (simp add: not_less)
  with \<open>0 < length ?cs\<close> have "\<not> (\<forall>j<length ?cs. f (?cs ! j) < max_score loop_init)"
    by (auto simp: loop_init_def)
  with alt obtain i where i: "i < length ?cs" "merge v' = Some (?cs ! i)"
      "\<forall>j<length ?cs. f (?cs ! j) \<le> f (?cs ! i)"
      "\<forall>j<length ?cs. i < j \<longrightarrow> f (?cs ! j) < f (?cs ! i)"
    by blast
  obtain m1 m2 where m: "?cs ! i = (m1, m2)" by (cases "?cs ! i")
  from s obtain sv where sv: "score v' = Some sv" by blast
  from r i(2) m sv obtain lv where
    "merge_level mc motifs d = Inr lv" "merge_1 lv = m1" "merge_2 lv = m2"
    by (simp add: merge_level_def Let_def)
  with i m show ?thesis by auto
qed

lemma consensus_levels:
  assumes ext: "\<forall>ms. \<forall>p\<in>set (combinations2 ms).
            \<exists>s. getitem2 (get_all_scores mc ms ms) (id' (fst p)) (id' (snd p)) = Inr s \<and> 0 \<le> fst s"
    and ini: "\<forall>p\<in>set (combinations2 motifs).
            \<exists>s. getitem2 d (id' (fst p)) (id' (snd p)) = Inr s \<and> 0 \<le> fst s"
    and len: "1 \<le> length motifs"
  shows "\<exists>r. generate_consensus_motif mc motifs d = Inr r \<and>
           length (merges r) = length motifs - 1 \<and>
           length (motifs_final r) = 1 \<and>
           (\<forall>i<length (merges r). Suc (length (motifs_out (merges r ! i)) + i) = length motifs)"
  using ini len
proof (induction "length motifs" arbitrary: motifs d)
  case 0
  then show ?case by simp
next
  case (Suc n)
  show ?case
  proof (cases "length motifs = 1")
    case True
    then show ?thesis by (simp add: generate_consensus_motif.simps)
  next
    case False
    with Suc.hyps(2) have len2: "2 \<le> length motifs" by simp
    define f where "f p = fst (projr (getitem2 d (id' (fst p)) (id' (snd p))))" for p :: "motif \<times> motif"
    have sc: "\<forall>p\<in>set (combinations2 motifs).
            \<exists>off ori. getitem2 d (id' (fst p)) (id' (snd p)) = Inr (f p, off, ori)"
    proof
      fix p assume "p \<in> set (combinations2 motifs)"
      with Suc.prems(1) obtain s where "getitem2 d (id' (fst p)) (id' (snd p)) = Inr s" by blast
      then show "\<exists>off ori. getitem2 d (id' (fst p)) (id' (snd p)) = Inr (f p, off, ori)"
        by (cases s) (simp add: f_def)
    qed
    have nn: "\<forall>p\<in>set (combinations2 motifs). 0 \<le> f p"
    proof
      fix p assume "p \<in> set (combinations2 motifs)"
      with Suc.prems(1) obtain s where "getitem2 d (id' (fst p)) (id' (snd p)) = Inr s" "0 \<le> fst s" by blast
      then show "0 \<le> f p" by (simp add: f_def)
    qed
    from merge_level_last_max [OF sc nn len2, of mc] obtain lv where
      lv: "merge_level mc motifs d = Inr lv" by blast
    from merge_level_length [OF lv] have l: "Suc (length (motifs_out lv)) = length motifs" .
    with Suc.hyps(2) have n: "n = length (motifs_out lv)" by simp
    from l len2 have l1: "1 \<le> length (motifs_out lv)" by simp
    let ?d' = "get_all_scores mc (motifs_out lv) (motifs_out lv)"
    from ext have "\<forall>p\<in>set (combinations2 (motifs_out lv)).
            \<exists>s. getitem2 ?d' (id' (fst p)) (id' (snd p)) = Inr s \<and> 0 \<le> fst s"
      by blast
    from Suc.hyps(1) [OF n this l1] obtain r where
      r: "generate_consensus_motif mc (motifs_out lv) ?d' = Inr r"
         "length (merges r) = length (motifs_out lv) - 1"
         "length (motifs_final r) = 1"
         "\<forall>i<length (merges r). Suc (length (motifs_out (merges r ! i)) + i) = length (motifs_out lv)"
      by blast
    let ?r = "r\<lparr>merges := lv # merges r\<rparr>"
    from False lv r(1) have g: "generate_consensus_motif mc motifs d = Inr ?r"
      by (subst generate_consensus_motif.simps) simp
    have "length (merges ?r) = length motifs - 1" using r(2) l l1 by simp
    moreover have "length (motifs_final ?r) = 1" using r(3) by simp
    moreover have "\<forall>i<length (merges ?r). Suc (length (motifs_out (merges ?r ! i)) + i) = length motifs"
    proof (intro allI impI)
      fix i assume "i < length (merges ?r)"
      then show "Suc (length (motifs_out (merges ?r ! i)) + i) = length motifs"
        using r(4) l by (cases i) auto
    qed
    ultimately show ?thesis using g by blast
  qed
qed

text \<open>
  After the loop, \<open>score\<close> is the entry of the last pair enumerated, whichever pair was
  selected: \<open>pos\<close> and \<open>orientation\<close> of the averaging call are read from it.
\<close>

lemma select_loop_score_last:
  "select_loop d ps v = Inr v' \<Longrightarrow> ps \<noteq> [] \<Longrightarrow>
   getitem2 d (id' (fst (last ps))) (id' (snd (last ps))) = Inr s \<Longrightarrow> score v' = Some s"
proof (induction ps arbitrary: v)
  case Nil
  then show ?case by simp
next
  case (Cons p ps)
  obtain a b where p: "p = (a, b)" by (cases p)
  from Cons.prems(1) p obtain t where
    t: "getitem2 d (id' a) (id' b) = Inr t" and
    rec: "select_loop d ps
            (if fst t \<ge> max_score v
             then \<lparr>max_score = fst t, merge = Some (a, b), score = Some t\<rparr>
             else v\<lparr>score := Some t\<rparr>) = Inr v'"
    by (auto split: sum.splits)
  show ?case
  proof (cases "ps = []")
    case True
    with rec t p Cons.prems(3) show ?thesis by (auto split: if_splits)
  next
    case False
    with Cons.prems(3) have "getitem2 d (id' (fst (last ps))) (id' (snd (last ps))) = Inr s"
      by simp
    from Cons.IH [OF rec False this] show ?thesis .
  qed
qed

lemma merge_level_reads_last_pair:
  assumes "merge_level mc motifs d = Inr lv"
    and "getitem2 d (id' (fst (last (combinations2 motifs)))) (id' (snd (last (combinations2 motifs))))
           = Inr (sc, off, ori)"
  shows "pos lv = off \<and> orientation lv = ori"
proof -
  from assms(1) obtain v where
    v: "select_loop d (combinations2 motifs) loop_init = Inr v" and
    m: "merge v \<noteq> None"
    by (auto simp: merge_level_def Let_def split: sum.splits option.splits)
  have ne: "combinations2 motifs \<noteq> []"
  proof
    assume "combinations2 motifs = []"
    with v have "v = loop_init" by simp
    with m show False by (simp add: loop_init_def)
  qed
  from select_loop_score_last [OF v ne assms(2)] have "score v = Some (sc, off, ori)" .
  with assms(1) v show ?thesis
    by (auto simp: merge_level_def Let_def split: option.splits)
qed

subsection \<open>Concrete clusters\<close>

text \<open>
  A motif with an empty matrix, a full score table over a list of identifiers, and a
  stand-in for gimmemotifs whose comparison scores every pair 1.
\<close>

definition mk_motif :: "string \<Rightarrow> motif" where
  "mk_motif s = \<lparr>id' = s, pfm = []\<rparr>"

definition score_table :: "string list \<Rightarrow> (string \<Rightarrow> string \<Rightarrow> pairwise_score) \<Rightarrow> score_dict" where
  "score_table ids f = map (\<lambda>a. (a, map (\<lambda>b. (b, f a b)) ids)) ids"

definition example_mc :: gimme where
  "example_mc = \<lparr>average_motifs = (\<lambda>a b p ori. a),
                 get_all_scores = (\<lambda>xs ys. map (\<lambda>a. (id' a, map (\<lambda>b. (id' b, (1, 0, 1))) ys)) xs)\<rparr>"

definition tie_scores :: score_dict where
  "tie_scores = score_table [''A'', ''B'', ''C'', ''D'']
     (\<lambda>a b. if (a, b) \<in> {(''A'', ''B''), (''B'', ''A''), (''C'', ''D''), (''D'', ''C'')}
             then (9/10, 0, 1) else (2/10, 0, 1))"

definition tie_motifs :: "motif list" where
  "tie_motifs = map mk_motif [''A'', ''B'', ''C'', ''D'']"

definition tie_f :: "motif \<times> motif \<Rightarrow> real" where
  "tie_f p = (if (id' (fst p), id' (snd p)) \<in> {(''A'', ''B''), (''C'', ''D'')} then 9/10 else 2/10)"

definition slip_scores :: score_dict where
  "slip_scores = score_table [''A'', ''B'', ''C'']
     (\<lambda>a b. if (a, b) \<in> {(''A'', ''B''), (''B'', ''A'')} then (9/10, 1, 1)
             else if (a, b) \<in> {(''B'', ''C''), (''C'', ''B'')} then (3/10, -2, -1)
             else if a = b then (1, 0, 1) else (2/10, 0, 1))"

lemma tie_eval: "merge_level example_mc tie_motifs tie_scores =
   Inr \<lparr>merge_1 = mk_motif ''C'', merge_2 = mk_motif ''D'', pos = 0, orientation = 1,
        average_motif = mk_motif ''C_D'',
        motifs_out = [mk_motif ''A'', mk_motif ''B'', mk_motif ''C_D'']\<rparr>"
  by (simp add: merge_level_def tie_motifs_def tie_scores_def score_table_def mk_motif_def
      example_mc_def loop_init_def getitem2_def Let_def)

lemma tie_h1: "\<forall>p\<in>set (combinations2 tie_motifs).
            \<exists>off ori. getitem2 tie_scores (id' (fst p)) (id' (snd p)) = Inr (tie_f p, off, ori)"
  by (simp add: tie_motifs_def tie_scores_def score_table_def mk_motif_def getitem2_def tie_f_def)

lemma tie_h2: "\<forall>p\<in>set (combinations2 tie_motifs). 0 \<le> tie_f p"
  by (simp add: tie_motifs_def tie_f_def)

lemma map_of_id_table:
  "x \<in> set xs \<Longrightarrow> \<exists>y\<in>set xs. id' y = id' x \<and> map_of (map (\<lambda>a. (id' a, g a)) xs) (id' x) = Some (g y)"
  by (induction xs) auto

lemma example_mc_ok: "\<forall>ms. \<forall>p\<in>set (combinations2 ms).
            \<exists>s. getitem2 (get_all_scores example_mc ms ms) (id' (fst p)) (id' (snd p)) = Inr s \<and> 0 \<le> fst s"
proof (intro allI ballI)
  fix ms :: "motif list" and p
  assume "p \<in> set (combinations2 ms)"
  then have "fst p \<in> set ms \<and> snd p \<in> set (remove1 (fst p) ms)"
    using combinations2_mem [of "fst p" "snd p" ms] by simp
  then have a: "fst p \<in> set ms" and b: "snd p \<in> set ms"
    using set_remove1_subset [of "fst p" ms] by auto
  from map_of_id_table [OF a, of "\<lambda>a. map (\<lambda>b. (id' b, (1::real, 0::int, 1::int))) ms"]
  have r: "map_of (get_all_scores example_mc ms ms) (id' (fst p)) =
           Some (map (\<lambda>b. (id' b, (1, 0, 1))) ms)"
    by (auto simp: example_mc_def)
  from map_of_id_table [OF b, of "\<lambda>b. (1::real, 0::int, 1::int)"]
  have "map_of (map (\<lambda>b. (id' b, (1::real, 0::int, 1::int))) ms) (id' (snd p)) = Some (1, 0, 1)"
    by auto
  with r show "\<exists>s. getitem2 (get_all_scores example_mc ms ms) (id' (fst p)) (id' (snd p)) = Inr s \<and> 0 \<le> fst s"
    by (simp add: getitem2_def)
qed

lemma tie_h3: "\<forall>p\<in>set (combinations2 tie_motifs).
            \<exists>s. getitem2 tie_scores (id' (fst p)) (id' (snd p)) = Inr s \<and> 0 \<le> fst s"
proof
  fix p assume p: "p \<in> set (combinations2 tie_motifs)"
  with tie_h1 obtain off ori where
    "getitem2 tie_scores (id' (fst p)) (id' (snd p)) = Inr (tie_f p, off, ori)" by blast
  moreover from p tie_h2 have "0 \<le> tie_f p" by blast
  ultimately show "\<exists>s. getitem2 tie_scores (id' (fst p)) (id' (snd p)) = Inr s \<and> 0 \<le> fst s"
    by simp
qed

subsection \<open>Claims about the consensus builder\<close>

text \<open>
  C1. The claim: the averaged motif is built from the winning pair with that pair's own
  recorded offset and orientation, and is named \<open>merge_1.id + "_" + merge_2.id\<close>.
  The source reads \<open>score[1]\<close> and \<open>score[2]\<close> after the loop, where \<open>score\<close> is the
  entry of the last pair enumerated. On the motifs A, B, C with similarity 0.9 for (A,B)
  (offset 1, orientation 1) and 0.3 for (B,C) (offset -2, orientation -1), the pair (A,B)
  is merged and named \<open>A_B\<close>, with offset -2 and orientation -1, those of (B,C).
\<close>

theorem consensus_average_uses_last_pair_score:
  "\<exists>lv. merge_level mc (map mk_motif [''A'', ''B'', ''C'']) slip_scores = Inr lv \<and>
    merge_1 lv = mk_motif ''A'' \<and> merge_2 lv = mk_motif ''B'' \<and>
    id' (average_motif lv) = ''A_B'' \<and>
    getitem2 slip_scores ''A'' ''B'' = Inr (9/10, 1, 1) \<and>
    getitem2 slip_scores ''B'' ''C'' = Inr (3/10, -2, -1) \<and>
    pos lv = -2 \<and> orientation lv = -1"
  by (simp add: merge_level_def slip_scores_def score_table_def mk_motif_def
      loop_init_def getitem2_def Let_def)

text \<open>
  C2. On a working list of at least two motifs whose pairs all have a score in the current
  score map, none negative (\<open>f\<close> is the similarity the map records), the level succeeds and
  merges the pair at the last position of \<open>itertools.combinations(motifs, 2)\<close> that reaches
  the maximum: no pair scores higher, and every later pair scores strictly lower.
\<close>

theorem consensus_selects_last_maximum:
  assumes "\<forall>p\<in>set (combinations2 motifs).
            \<exists>off ori. getitem2 d (id' (fst p)) (id' (snd p)) = Inr (f p, off, ori)"
    and "\<forall>p\<in>set (combinations2 motifs). 0 \<le> f p"
    and "2 \<le> length motifs"
  shows "\<exists>lv i. merge_level mc motifs d = Inr lv \<and> i < length (combinations2 motifs) \<and>
           combinations2 motifs ! i = (merge_1 lv, merge_2 lv) \<and>
           (\<forall>j<length (combinations2 motifs).
               f (combinations2 motifs ! j) \<le> f (combinations2 motifs ! i)) \<and>
           (\<forall>j<length (combinations2 motifs).
               i < j \<longrightarrow> f (combinations2 motifs ! j) < f (combinations2 motifs ! i))"
  using assms by (rule merge_level_last_max)

text \<open>
  The tie-break scenario: A, B, C, D where the disjoint pairs (A,B) and (C,D) both score
  0.9 and every other pair 0.2. The pair (C,D), enumerated last, is merged first.
\<close>

theorem consensus_selects_last_maximum_witness:
  "merge_level example_mc tie_motifs tie_scores =
     Inr \<lparr>merge_1 = mk_motif ''C'', merge_2 = mk_motif ''D'', pos = 0, orientation = 1,
          average_motif = mk_motif ''C_D'',
          motifs_out = [mk_motif ''A'', mk_motif ''B'', mk_motif ''C_D'']\<rparr> \<and>
   (\<exists>lv i. merge_level example_mc tie_motifs tie_scores = Inr lv \<and>
           i < length (combinations2 tie_motifs) \<and>
           combinations2 tie_motifs ! i = (merge_1 lv, merge_2 lv) \<and>
           (\<forall>j<length (combinations2 tie_motifs).
               tie_f (combinations2 tie_motifs ! j) \<le> tie_f (combinations2 tie_motifs ! i)) \<and>
           (\<forall>j<length (combinations2 tie_motifs).
               i < j \<longrightarrow> tie_f (combinations2 tie_motifs ! j) < tie_f (combinations2 tie_motifs ! i)))"
proof -
  have len: "2 \<le> length tie_motifs" by (simp add: tie_motifs_def)
  from consensus_selects_last_maximum [OF tie_h1 tie_h2 len, of example_mc] tie_eval
  show ?thesis by blast
qed

text \<open>
  C7. A cluster of exactly one motif: the call returns that element of the list, makes no
  call of \<open>average_motifs\<close> and leaves the list as it is, whatever the score map.
\<close>

theorem consensus_singleton_identity:
  "generate_consensus_motif mc [m] d = Inr \<lparr>cons_motif = m, motifs_final = [m], merges = []\<rparr>"
  by (simp add: generate_consensus_motif.simps)

text \<open>
  C8. For a cluster of \<open>k \<ge> 1\<close> motifs, where the initial score map and every map that
  \<open>get_all_scores\<close> returns score each pair of their list, none negatively: the recursion
  returns, after exactly \<open>k - 1\<close> merges; the list after the \<open>i\<close>-th level (from 0) has
  \<open>k - 1 - i\<close> motifs, one fewer at each level; and the list is left with one motif.
\<close>

theorem consensus_terminates:
  assumes "\<forall>ms. \<forall>p\<in>set (combinations2 ms).
            \<exists>s. getitem2 (get_all_scores mc ms ms) (id' (fst p)) (id' (snd p)) = Inr s \<and> 0 \<le> fst s"
    and "\<forall>p\<in>set (combinations2 motifs).
            \<exists>s. getitem2 d (id' (fst p)) (id' (snd p)) = Inr s \<and> 0 \<le> fst s"
    and "1 \<le> length motifs"
  shows "\<exists>r. generate_consensus_motif mc motifs d = Inr r \<and>
           length (merges r) = length motifs - 1 \<and>
           length (motifs_final r) = 1 \<and>
           (\<forall>i<length (merges r). Suc (length (motifs_out (merges r ! i)) + i) = length motifs)"
  using assms by (rule consensus_levels)

theorem consensus_terminates_witness:
  "\<exists>r. generate_consensus_motif example_mc tie_motifs tie_scores = Inr r \<and>
           length (merges r) = length tie_motifs - 1 \<and>
           length (motifs_final r) = 1 \<and>
           (\<forall>i<length (merges r).
               Suc (length (motifs_out (merges r ! i)) + i) = length tie_motifs)"
proof -
  have len: "1 \<le> length tie_motifs" by (simp add: tie_motifs_def)
  from consensus_terminates [OF example_mc_ok tie_h3 len]
  show ?thesis .
qed

text \<open>
  C9. An empty cluster: the loop body never runs, \<open>merge_1\<close> is unbound where
  \<open>merge_1.average_motifs\<close> reads it, and the call fails with UnboundLocalError; it
  returns no motif.
\<close>

theorem consensus_empty_cluster_fails:
  "generate_consensus_motif mc [] d = Inl UnboundLocalError"
  by (simp add: generate_consensus_motif.simps merge_level_def loop_init_def)

section \<open>Dissimilarity classifier\<close>

text \<open>
  A pandas DataFrame: the column labels, the row labels (the index) and the values, one
  list per column, each as long as the index.
\<close>

record dataframe =
  columns :: "string list"
  index :: "string list"
  data :: "real list list"

text \<open>
  \<^verbatim>\<open>
  columns = matrix.shape[1]
  dissimilar_motifs = list()
  for col in range(columns-1):
      col_vec = matrix.iloc[:,col] > threshold
      if(col_vec.eq(True).all()):
          dissimilar_motifs.append(matrix.columns[col])
  return dissimilar_motifs
  \<close>
  With no column, \<open>range(-1)\<close> is empty, as \<open>[0..<0 - 1]\<close> is.
\<close>

fun dissimilar_loop :: "dataframe \<Rightarrow> real \<Rightarrow> nat list \<Rightarrow> string list \<Rightarrow> string list" where
  "dissimilar_loop matrix threshold [] dissimilar_motifs = dissimilar_motifs"
| "dissimilar_loop matrix threshold (col # cols) dissimilar_motifs =
     dissimilar_loop matrix threshold cols
       (if list_all (\<lambda>v. v > threshold) (data matrix ! col)
        then dissimilar_motifs @ [columns matrix ! col]
        else dissimilar_motifs)"

definition get_dissimilar_motifs :: "dataframe \<Rightarrow> real \<Rightarrow> string list" where
  "get_dissimilar_motifs matrix threshold =
     dissimilar_loop matrix threshold [0..<length (columns matrix) - 1] []"

lemma dissimilar_loop_filter:
  "dissimilar_loop matrix t cols acc =
     acc @ map (\<lambda>c. columns matrix ! c) (filter (\<lambda>c. list_all (\<lambda>v. t < v) (data matrix ! c)) cols)"
  by (induction cols arbitrary: acc) auto

lemma dissimilar_loop_cong:
  "\<forall>c\<in>set cols. data m1 ! c = data m2 ! c \<Longrightarrow> columns m1 = columns m2 \<Longrightarrow>
   dissimilar_loop m1 t cols acc = dissimilar_loop m2 t cols acc"
  by (induction cols arbitrary: acc) auto

definition example_matrix :: dataframe where
  "example_matrix = \<lparr>columns = [''X'', ''Y'', ''Z''], index = [''X'', ''Y'', ''Z''],
      data = [[9/10, 9/10, 9/10], [9/10, 0, 1/10], [9/10, 1/10, 0]]\<rparr>"

definition example_matrix_last :: dataframe where
  "example_matrix_last = \<lparr>columns = [''Y'', ''Z'', ''X''], index = [''Y'', ''Z'', ''X''],
      data = [[0, 1/10, 9/10], [1/10, 0, 9/10], [9/10, 9/10, 9/10]]\<rparr>"

text \<open>
  C5. The result lists, in column order, the labels of the columns among the first
  \<open>column_count - 1\<close> whose entries all exceed the threshold (the diagonal entry is one
  of them). The last column is not read: replacing its values leaves the result as it is.
  Where the column labels are distinct, the last label is not in the result.
\<close>

theorem get_dissimilar_motifs_all_but_last:
  "get_dissimilar_motifs matrix t =
     map (\<lambda>c. columns matrix ! c)
       (filter (\<lambda>c. \<forall>v\<in>set (data matrix ! c). t < v) [0..<length (columns matrix) - 1]) \<and>
   get_dissimilar_motifs (matrix\<lparr>data := (data matrix)[length (columns matrix) - 1 := col']\<rparr>) t =
     get_dissimilar_motifs matrix t \<and>
   (distinct (columns matrix) \<and> columns matrix \<noteq> [] \<longrightarrow>
      last (columns matrix) \<notin> set (get_dissimilar_motifs matrix t))"
proof -
  let ?n = "length (columns matrix)"
  have a: "get_dissimilar_motifs matrix t =
           map (\<lambda>c. columns matrix ! c)
             (filter (\<lambda>c. \<forall>v\<in>set (data matrix ! c). t < v) [0..<?n - 1])"
    by (simp add: get_dissimilar_motifs_def dissimilar_loop_filter list_all_iff)
  have b: "get_dissimilar_motifs (matrix\<lparr>data := (data matrix)[?n - 1 := col']\<rparr>) t =
           get_dissimilar_motifs matrix t"
    using dissimilar_loop_cong [of "[0..<?n - 1]"
        "matrix\<lparr>data := (data matrix)[?n - 1 := col']\<rparr>" matrix t "[]"]
    by (simp add: get_dissimilar_motifs_def)
  have c: "last (columns matrix) \<notin> set (get_dissimilar_motifs matrix t)"
    if dist: "distinct (columns matrix)" and ne: "columns matrix \<noteq> []"
  proof
    assume "last (columns matrix) \<in> set (get_dissimilar_motifs matrix t)"
    with a obtain c where c: "c < ?n - 1" "columns matrix ! c = last (columns matrix)"
      by auto
    from ne have "last (columns matrix) = columns matrix ! (?n - 1)"
      by (simp add: last_conv_nth)
    with c dist show False
      by (simp add: nth_eq_iff_index_eq)
  qed
  from a b c show ?thesis by blast
qed

text \<open>
  The scenario of the specification: column X holds 0.9 everywhere and the threshold is
  0.5. X is reported when it is the first column, and not when it is the last one.
\<close>

theorem get_dissimilar_motifs_all_but_last_witness:
  "get_dissimilar_motifs example_matrix (1/2) = [''X''] \<and>
   get_dissimilar_motifs example_matrix_last (1/2) = [] \<and>
   distinct (columns example_matrix_last) \<and> columns example_matrix_last \<noteq> [] \<and>
   last (columns example_matrix_last) = ''X'' \<and>
   last (columns example_matrix_last) \<notin> set (get_dissimilar_motifs example_matrix_last (1/2))"
proof -
  have d: "distinct (columns example_matrix_last) \<and> columns example_matrix_last \<noteq> []"
    by (simp add: example_matrix_last_def)
  have e: "get_dissimilar_motifs example_matrix (1/2) = [''X'']"
    by (simp add: get_dissimilar_motifs_def example_matrix_def upt_conv_Cons)
  have l: "last (columns example_matrix_last) = ''X''"
    by (simp add: example_matrix_last_def)
  from get_dissimilar_motifs_all_but_last [of example_matrix_last "1/2" "[]"] d
  have n: "last (columns example_matrix_last) \<notin> set (get_dissimilar_motifs example_matrix_last (1/2))"
    by blast
  have f: "get_dissimilar_motifs example_matrix_last (1/2) = []"
    by (simp add: get_dissimilar_motifs_def example_matrix_last_def upt_conv_Cons)
  from d e f l n show ?thesis by simp
qed

section \<open>Hierarchical clusterer: grouping the flat labels\<close>

text \<open>
  \<open>str\<close> of an integer label (the decimal digits, a minus sign first when negative), and
  \<^verbatim>\<open>
  cluster = defaultdict(list)
  for i in range(len(labels)):
      cluster["Cluster_" + str(labels[i])].append(label_names[i])
  return cluster
  \<close>
  Reading a missing key of the defaultdict inserts an empty list at the end of the dict;
  \<open>label_names[i]\<close> out of range raises IndexError.
\<close>

definition digit_char :: "nat \<Rightarrow> char" where
  "digit_char n = ''0123456789'' ! n"

fun str_nat :: "nat \<Rightarrow> string" where
  "str_nat n = (if n < 10 then [digit_char n] else str_nat (n div 10) @ [digit_char (n mod 10)])"

definition str_int :: "int \<Rightarrow> string" where
  "str_int i = (if i < 0 then CHR ''-'' # str_nat (nat (- i)) else str_nat (nat i))"

type_synonym cluster_dict = "(string \<times> string list) list"

definition append_item :: "cluster_dict \<Rightarrow> string \<Rightarrow> string \<Rightarrow> cluster_dict" where
  "append_item cluster k x =
     AList.update k ((case map_of cluster k of None \<Rightarrow> [] | Some xs \<Rightarrow> xs) @ [x]) cluster"

fun get_cluster_loop :: "int list \<Rightarrow> string list \<Rightarrow> nat list \<Rightarrow> cluster_dict \<Rightarrow> error + cluster_dict" where
  "get_cluster_loop labels label_names [] cluster = Inr cluster"
| "get_cluster_loop labels label_names (i # is) cluster =
     (if i < length label_names
      then get_cluster_loop labels label_names is
             (append_item cluster (''Cluster_'' @ str_int (labels ! i)) (label_names ! i))
      else Inl IndexError)"

definition get_cluster :: "int list \<Rightarrow> string list \<Rightarrow> error + cluster_dict" where
  "get_cluster labels label_names = get_cluster_loop labels label_names [0..<length labels] []"

declare str_nat.simps [simp del]

lemma digit_char_inj: "a < 10 \<Longrightarrow> b < 10 \<Longrightarrow> digit_char a = digit_char b \<Longrightarrow> a = b"
proof -
  assume a: "a < 10" and b: "b < 10" and e: "digit_char a = digit_char b"
  have d: "distinct ''0123456789''" by simp
  have l: "length ''0123456789'' = 10" by simp
  from e have "''0123456789'' ! a = ''0123456789'' ! b" by (simp only: digit_char_def)
  with d a b l show "a = b" by (simp only: nth_eq_iff_index_eq)
qed

lemma digit_char_not_minus: "n < 10 \<Longrightarrow> CHR ''-'' \<noteq> digit_char n"
proof -
  assume "n < 10"
  then have "n \<in> {0,1,2,3,4,5,6,7,8,9}" by auto
  then show ?thesis by (auto simp: digit_char_def)
qed

lemma str_nat_ne: "str_nat n \<noteq> []"
  by (subst str_nat.simps) simp

lemma str_nat_no_minus: "CHR ''-'' \<notin> set (str_nat n)"
proof (induction n rule: str_nat.induct)
  case (1 n)
  show ?case
  proof (cases "n < 10")
    case True
    then show ?thesis by (subst str_nat.simps) (simp add: digit_char_not_minus)
  next
    case False
    with 1 show ?thesis
      by (subst str_nat.simps) (simp add: digit_char_not_minus)
  qed
qed

lemma str_nat_inj: "str_nat a = str_nat b \<Longrightarrow> a = b"
proof (induction a arbitrary: b rule: str_nat.induct)
  case (1 n)
  show ?case
  proof (cases "n < 10")
    case True
    show ?thesis
    proof (cases "b < 10")
      case b: True
      from 1(2) True b have "digit_char n = digit_char b"
        by (simp add: str_nat.simps)
      with True b show ?thesis by (rule digit_char_inj)
    next
      case b: False
      from 1(2) True b have "[digit_char n] = str_nat (b div 10) @ [digit_char (b mod 10)]"
        by (simp add: str_nat.simps [of n] str_nat.simps [of b])
      then have "str_nat (b div 10) = []" by (simp add: Cons_eq_append_conv)
      with str_nat_ne show ?thesis by blast
    qed
  next
    case False
    show ?thesis
    proof (cases "b < 10")
      case b: True
      from 1(2) False b have "str_nat (n div 10) @ [digit_char (n mod 10)] = [digit_char b]"
        by (simp add: str_nat.simps [of n] str_nat.simps [of b])
      then have "str_nat (n div 10) = []" by (simp add: append_eq_Cons_conv)
      with str_nat_ne show ?thesis by blast
    next
      case b: False
      from 1(2) False b have "str_nat (n div 10) @ [digit_char (n mod 10)] =
                              str_nat (b div 10) @ [digit_char (b mod 10)]"
        by (simp add: str_nat.simps [of n] str_nat.simps [of b])
      then have e: "str_nat (n div 10) = str_nat (b div 10)" "digit_char (n mod 10) = digit_char (b mod 10)"
        by simp_all
      from 1(1) [OF False e(1)] have "n div 10 = b div 10" .
      moreover from e(2) have "n mod 10 = b mod 10" by (intro digit_char_inj) simp_all
      ultimately show ?thesis by (metis div_mult_mod_eq)
    qed
  qed
qed

lemma str_int_inj: "str_int a = str_int b \<Longrightarrow> a = b"
proof -
  assume e: "str_int a = str_int b"
  have hd_ne: "\<And>n. hd (str_nat n) \<noteq> CHR ''-''"
    using str_nat_no_minus str_nat_ne by (metis hd_in_set)
  show "a = b"
  proof (cases "a < 0"; cases "b < 0")
    assume "a < 0" "b < 0"
    with e have "str_nat (nat (- a)) = str_nat (nat (- b))" by (simp add: str_int_def)
    then have "nat (- a) = nat (- b)" by (rule str_nat_inj)
    with \<open>a < 0\<close> \<open>b < 0\<close> show ?thesis by simp
  next
    assume "a < 0" "\<not> b < 0"
    with e have "CHR ''-'' # str_nat (nat (- a)) = str_nat (nat b)" by (simp add: str_int_def)
    then have "hd (str_nat (nat b)) = CHR ''-''" by (metis list.sel(1))
    with hd_ne show ?thesis by blast
  next
    assume "\<not> a < 0" "b < 0"
    with e have "str_nat (nat a) = CHR ''-'' # str_nat (nat (- b))" by (simp add: str_int_def)
    then have "hd (str_nat (nat a)) = CHR ''-''" by (metis list.sel(1))
    with hd_ne show ?thesis by blast
  next
    assume "\<not> a < 0" "\<not> b < 0"
    with e have "str_nat (nat a) = str_nat (nat b)" by (simp add: str_int_def)
    then have "nat a = nat b" by (rule str_nat_inj)
    with \<open>\<not> a < 0\<close> \<open>\<not> b < 0\<close> show ?thesis by simp
  qed
qed

lemma map_of_append_item:
  "map_of (append_item c k x) k' =
     (if k' = k then Some ((case map_of c k of None \<Rightarrow> [] | Some xs \<Rightarrow> xs) @ [x]) else map_of c k')"
  by (simp add: append_item_def update_conv')

lemma keys_append_item: "fst ` set (append_item c k x) = insert k (fst ` set c)"
proof -
  have "set (map fst (append_item c k x)) = insert k (set (map fst c))"
    by (auto simp: append_item_def update_keys)
  then show ?thesis by simp
qed

lemma distinct_append_item: "distinct (map fst c) \<Longrightarrow> distinct (map fst (append_item c k x))"
  by (simp add: append_item_def distinct_update)

lemma get_cluster_loop_spec:
  assumes "\<forall>i\<in>set is. i < length names"
  shows "\<exists>c'. get_cluster_loop labels names is c = Inr c' \<and>
     (distinct (map fst c) \<longrightarrow> distinct (map fst c')) \<and>
     fst ` set c' = fst ` set c \<union> (\<lambda>i. ''Cluster_'' @ str_int (labels ! i)) ` set is \<and>
     (\<forall>k. map_of c' k =
        (if [i \<leftarrow> is. ''Cluster_'' @ str_int (labels ! i) = k] = [] then map_of c k
         else Some ((case map_of c k of None \<Rightarrow> [] | Some xs \<Rightarrow> xs) @
                    map (\<lambda>i. names ! i) [i \<leftarrow> is. ''Cluster_'' @ str_int (labels ! i) = k])))"
  using assms
proof (induction "is" arbitrary: c)
  case Nil
  then show ?case by simp
next
  case (Cons i "is")
  let ?k = "''Cluster_'' @ str_int (labels ! i)"
  let ?c1 = "append_item c ?k (names ! i)"
  from Cons.prems have i: "i < length names" and rest: "\<forall>i\<in>set is. i < length names" by simp_all
  from Cons.IH [OF rest, of ?c1] obtain c' where
    r: "get_cluster_loop labels names is ?c1 = Inr c'" and
    d: "distinct (map fst ?c1) \<longrightarrow> distinct (map fst c')" and
    ks: "fst ` set c' = fst ` set ?c1 \<union> (\<lambda>i. ''Cluster_'' @ str_int (labels ! i)) ` set is" and
    m: "\<forall>k. map_of c' k =
        (if [i \<leftarrow> is. ''Cluster_'' @ str_int (labels ! i) = k] = [] then map_of ?c1 k
         else Some ((case map_of ?c1 k of None \<Rightarrow> [] | Some xs \<Rightarrow> xs) @
                    map (\<lambda>i. names ! i) [i \<leftarrow> is. ''Cluster_'' @ str_int (labels ! i) = k]))"
    by blast
  have g: "get_cluster_loop labels names (i # is) c = Inr c'" using i r by simp
  have d': "distinct (map fst c) \<longrightarrow> distinct (map fst c')"
    using d by (simp add: distinct_append_item)
  have ks': "fst ` set c' = fst ` set c \<union> (\<lambda>i. ''Cluster_'' @ str_int (labels ! i)) ` set (i # is)"
    using ks by (simp add: keys_append_item)
  have m': "map_of c' k =
        (if [j \<leftarrow> i # is. ''Cluster_'' @ str_int (labels ! j) = k] = [] then map_of c k
         else Some ((case map_of c k of None \<Rightarrow> [] | Some xs \<Rightarrow> xs) @
                    map (\<lambda>i. names ! i) [j \<leftarrow> i # is. ''Cluster_'' @ str_int (labels ! j) = k]))" for k
    using m [rule_format, of k] by (simp add: map_of_append_item split: option.splits)
  from g d' ks' m' show ?case by blast
qed

lemma get_cluster_groups:
  assumes len: "length labels = length label_names"
    and dist: "distinct label_names"
  shows "\<exists>cluster. get_cluster labels label_names = Inr cluster \<and>
     distinct (map fst cluster) \<and>
     fst ` set cluster = (\<lambda>l. ''Cluster_'' @ str_int l) ` set labels \<and>
     (\<forall>l. map_of cluster (''Cluster_'' @ str_int l) =
        (if l \<in> set labels
         then Some (map (\<lambda>i. label_names ! i) [i \<leftarrow> [0..<length labels]. labels ! i = l])
         else None)) \<and>
     (\<forall>i<length label_names. \<forall>k members. map_of cluster k = Some members \<longrightarrow>
        (label_names ! i \<in> set members \<longleftrightarrow> k = ''Cluster_'' @ str_int (labels ! i)))"
proof -
  let ?n = "length labels"
  let ?key = "\<lambda>l. ''Cluster_'' @ str_int l"
  have "\<forall>i\<in>set [0..<?n]. i < length label_names" using len by simp
  from get_cluster_loop_spec [OF this, of labels "[]"] obtain cluster where
    g: "get_cluster labels label_names = Inr cluster" and
    d: "distinct (map fst cluster)" and
    ks: "fst ` set cluster = (\<lambda>i. ?key (labels ! i)) ` set [0..<?n]" and
    m: "\<forall>k. map_of cluster k =
        (if [i \<leftarrow> [0..<?n]. ?key (labels ! i) = k] = [] then None
         else Some (map (\<lambda>i. label_names ! i) [i \<leftarrow> [0..<?n]. ?key (labels ! i) = k]))"
    by (auto simp: get_cluster_def)
  have ks': "fst ` set cluster = ?key ` set labels"
  proof -
    have "(\<lambda>i. labels ! i) ` set [0..<?n] = set labels"
      by (metis map_nth set_map)
    then have "?key ` ((\<lambda>i. labels ! i) ` set [0..<?n]) = ?key ` set labels" by simp
    with ks show ?thesis by (simp add: image_image)
  qed
  have si: "str_int a = str_int b \<longleftrightarrow> a = b" for a b
    using str_int_inj by blast
  have emp: "[i \<leftarrow> [0..<?n]. labels ! i = l] = [] \<longleftrightarrow> l \<notin> set labels" for l
    by (auto simp: filter_empty_conv in_set_conv_nth)
  have ml: "map_of cluster (?key l) =
        (if l \<in> set labels
         then Some (map (\<lambda>i. label_names ! i) [i \<leftarrow> [0..<?n]. labels ! i = l])
         else None)" for l
    using m [rule_format, of "?key l"] by (simp add: si emp)
  have ex1: "label_names ! i \<in> set members \<longleftrightarrow> k = ?key (labels ! i)"
    if i: "i < length label_names" and k: "map_of cluster k = Some members" for i k members
  proof -
    from k m [rule_format, of k]
    have mem: "members = map (\<lambda>i. label_names ! i) [i \<leftarrow> [0..<?n]. ?key (labels ! i) = k]"
      by (simp split: if_splits)
    show ?thesis
    proof
      assume "label_names ! i \<in> set members"
      with mem obtain j where j: "j < ?n" "?key (labels ! j) = k" "label_names ! j = label_names ! i"
        by auto
      with dist i len have "j = i" by (simp add: nth_eq_iff_index_eq)
      with j show "k = ?key (labels ! i)" by simp
    next
      assume "k = ?key (labels ! i)"
      with mem i len show "label_names ! i \<in> set members" by auto
    qed
  qed
  from g d ks' ml ex1 show ?thesis by blast
qed

text \<open>
  C6. For a label array with one label per row label (what \<open>fcluster\<close> returns) and distinct
  row labels: the grouping succeeds; its keys are distinct and are exactly
  \<open>"Cluster_" + str(l)\<close> for the labels \<open>l\<close> that occur; the cluster of \<open>l\<close> lists the row
  labels carrying \<open>l\<close> in row order; and each row label is in the cluster of its own label
  and in no other.
\<close>

theorem get_cluster_partitions:
  assumes "length labels = length label_names"
    and "distinct label_names"
  shows "\<exists>cluster. get_cluster labels label_names = Inr cluster \<and>
     distinct (map fst cluster) \<and>
     fst ` set cluster = (\<lambda>l. ''Cluster_'' @ str_int l) ` set labels \<and>
     (\<forall>l. map_of cluster (''Cluster_'' @ str_int l) =
        (if l \<in> set labels
         then Some (map (\<lambda>i. label_names ! i) [i \<leftarrow> [0..<length labels]. labels ! i = l])
         else None)) \<and>
     (\<forall>i<length label_names. \<forall>k members. map_of cluster k = Some members \<longrightarrow>
        (label_names ! i \<in> set members \<longleftrightarrow> k = ''Cluster_'' @ str_int (labels ! i)))"
  using assms by (rule get_cluster_groups)

theorem get_cluster_partitions_witness:
  "get_cluster [1, 2, 1] [''A'', ''B'', ''C''] =
     Inr [(''Cluster_1'', [''A'', ''C'']), (''Cluster_2'', [''B''])] \<and>
   (\<exists>cluster. get_cluster [1, 2, 1] [''A'', ''B'', ''C''] = Inr cluster \<and>
     distinct (map fst cluster) \<and>
     fst ` set cluster = (\<lambda>l. ''Cluster_'' @ str_int l) ` set [1, 2, 1] \<and>
     (\<forall>l. map_of cluster (''Cluster_'' @ str_int l) =
        (if l \<in> set [1, 2, 1]
         then Some (map (\<lambda>i. [''A'', ''B'', ''C''] ! i)
                     [i \<leftarrow> [0..<length [1, 2, 1 :: int]]. [1, 2, 1] ! i = l])
         else None)) \<and>
     (\<forall>i<length [''A'', ''B'', ''C'']. \<forall>k members. map_of cluster k = Some members \<longrightarrow>
        ([''A'', ''B'', ''C''] ! i \<in> set members \<longleftrightarrow> k = ''Cluster_'' @ str_int ([1, 2, 1] ! i))))"
proof -
  have len: "length [1, 2, 1 :: int] = length [''A'', ''B'', ''C'']" by simp
  have dist: "distinct [''A'', ''B'', ''C'']" by simp
  have e: "get_cluster [1, 2, 1] [''A'', ''B'', ''C''] =
     Inr [(''Cluster_1'', [''A'', ''C'']), (''Cluster_2'', [''B''])]"
    by (simp add: get_cluster_def upt_conv_Cons append_item_def str_int_def str_nat.simps
        digit_char_def)
  from get_cluster_partitions [OF len dist] e show ?thesis by blast
qed

section \<open>Score matrix builder\<close>

text \<open>
  \<open>s.replace('\t', ' ')\<close>, \<open>np.mean([a, b])\<close> and \<open>round(x, 3)\<close> on a numpy float (the
  value times 1000, rounded to the nearest integer with ties to even, divided by 1000).
\<close>

definition replace_tab :: "string \<Rightarrow> string" where
  "replace_tab s = map (\<lambda>c. if c = CHR 0x09 then CHR '' '' else c) s"

definition mean2 :: "real \<Rightarrow> real \<Rightarrow> real" where
  "mean2 a b = (a + b) / 2"

definition rint :: "real \<Rightarrow> int" where
  "rint x =
     (let f = \<lfloor>x\<rfloor>; r = x - of_int f
      in if r < 1/2 then f else if r > 1/2 then f + 1 else if even f then f else f + 1)"

definition round3 :: "real \<Rightarrow> real" where
  "round3 x = of_int (rint (x * 1000)) / 1000"

text \<open>
  \<open>similarity_dict[a][b] = v\<close>: the row of \<open>a\<close> must exist (KeyError otherwise); the entry
  is replaced, or added at the end of the row.
\<close>

type_synonym similarity_dict = "(string \<times> (string \<times> real) list) list"

definition setitem2 ::
  "(string \<times> (string \<times> 'v) list) list \<Rightarrow> string \<Rightarrow> string \<Rightarrow> 'v \<Rightarrow>
   error + (string \<times> (string \<times> 'v) list) list" where
  "setitem2 d a b v =
     (case map_of d a of
        None \<Rightarrow> Inl KeyError
      | Some row \<Rightarrow> Inr (AList.update a (AList.update b v row) d))"

text \<open>
  \<^verbatim>\<open>
  m1_keys = list(score_dict.keys())
  m2_keys = list(score_dict.values())[0].keys()
  m1_labels = [s.replace('\t', ' ') for s in m1_keys]
  m2_labels = [s.replace('\t', ' ') for s in m2_keys]
  similarity_dict = {m:{} for m in m1_labels}
  for i, m1 in enumerate(m1_keys):
      for j, m2 in enumerate(m2_keys):
          score = round(1 - np.mean([score_dict[m1][m2][0], score_dict[m2][m1][0]]), 3)
          similarity_dict[m1_labels[i]][m2_labels[j]] = score
          similarity_dict[m2_labels[j]][m1_labels[i]] = score
  similarity_dict_format = {m1: [similarity_dict[m1][m2] for m2 in m2_labels] for m1 in m1_labels}
  dataframe = pd.DataFrame(similarity_dict_format, index = m2_labels).replace(-0, 0)
  \<close>
  The loops run over the keys paired with their labels (\<open>enumerate\<close> and the two label
  lists). An empty \<open>score_dict\<close> raises IndexError at \<open>[0]\<close>. In \<open>replace(-0, 0)\<close> the
  literal \<open>-0\<close> is the integer 0: every value equal to 0 becomes 0.
\<close>

fun inner_loop ::
  "score_dict \<Rightarrow> string \<Rightarrow> string \<Rightarrow> (string \<times> string) list \<Rightarrow> similarity_dict \<Rightarrow>
   error + similarity_dict" where
  "inner_loop score_dict m1 l1 [] similarity_dict = Inr similarity_dict"
| "inner_loop score_dict m1 l1 ((m2, l2) # rest) similarity_dict =
     (case getitem2 score_dict m1 m2 of
        Inl e \<Rightarrow> Inl e
      | Inr s12 \<Rightarrow>
          (case getitem2 score_dict m2 m1 of
             Inl e \<Rightarrow> Inl e
           | Inr s21 \<Rightarrow>
               (case setitem2 similarity_dict l1 l2 (round3 (1 - mean2 (fst s12) (fst s21))) of
                  Inl e \<Rightarrow> Inl e
                | Inr sd1 \<Rightarrow>
                    (case setitem2 sd1 l2 l1 (round3 (1 - mean2 (fst s12) (fst s21))) of
                       Inl e \<Rightarrow> Inl e
                     | Inr sd2 \<Rightarrow> inner_loop score_dict m1 l1 rest sd2))))"

fun outer_loop ::
  "score_dict \<Rightarrow> (string \<times> string) list \<Rightarrow> (string \<times> string) list \<Rightarrow> similarity_dict \<Rightarrow>
   error + similarity_dict" where
  "outer_loop score_dict [] m2s similarity_dict = Inr similarity_dict"
| "outer_loop score_dict ((m1, l1) # rest) m2s similarity_dict =
     (case inner_loop score_dict m1 l1 m2s similarity_dict of
        Inl e \<Rightarrow> Inl e
      | Inr sd \<Rightarrow> outer_loop score_dict rest m2s sd)"

fun column_of :: "similarity_dict \<Rightarrow> string \<Rightarrow> string list \<Rightarrow> error + real list" where
  "column_of similarity_dict m1 [] = Inr []"
| "column_of similarity_dict m1 (m2 # rest) =
     (case getitem2 similarity_dict m1 m2 of
        Inl e \<Rightarrow> Inl e
      | Inr v \<Rightarrow>
          (case column_of similarity_dict m1 rest of
             Inl e \<Rightarrow> Inl e
           | Inr vs \<Rightarrow> Inr (v # vs)))"

fun format_loop ::
  "similarity_dict \<Rightarrow> string list \<Rightarrow> string list \<Rightarrow> (string \<times> real list) list \<Rightarrow>
   error + (string \<times> real list) list" where
  "format_loop similarity_dict [] m2_labels acc = Inr acc"
| "format_loop similarity_dict (m1 # rest) m2_labels acc =
     (case column_of similarity_dict m1 m2_labels of
        Inl e \<Rightarrow> Inl e
      | Inr col \<Rightarrow> format_loop similarity_dict rest m2_labels (AList.update m1 col acc))"

definition generate_similarity_matrix :: "score_dict \<Rightarrow> error + dataframe" where
  "generate_similarity_matrix score_dict =
     (case score_dict of
        [] \<Rightarrow> Inl IndexError
      | (k, first) # others \<Rightarrow>
          (let m1_keys = map fst score_dict;
               m2_keys = map fst first;
               m1_labels = map replace_tab m1_keys;
               m2_labels = map replace_tab m2_keys;
               similarity_dict = foldl (\<lambda>d m. AList.update m [] d) [] m1_labels
           in case outer_loop score_dict (zip m1_keys m1_labels) (zip m2_keys m2_labels)
                     similarity_dict of
                Inl e \<Rightarrow> Inl e
              | Inr sd \<Rightarrow>
                  (case format_loop sd m1_labels m2_labels [] of
                     Inl e \<Rightarrow> Inl e
                   | Inr similarity_dict_format \<Rightarrow>
                       Inr \<lparr>columns = map fst similarity_dict_format,
                            index = m2_labels,
                            data = map (map (\<lambda>v. if v = - 0 then 0 else v))
                                     (map snd similarity_dict_format)\<rparr>)))"

text \<open>The entry of a DataFrame at a column label and a row label: \<open>matrix[c][r]\<close>.\<close>

definition entry :: "dataframe \<Rightarrow> string \<Rightarrow> string \<Rightarrow> real option" where
  "entry matrix c r =
     (case map_of (zip (columns matrix) (data matrix)) c of
        None \<Rightarrow> None
      | Some col \<Rightarrow> map_of (zip (index matrix) col) r)"

subsection \<open>What the two loops leave in \<open>similarity_dict\<close>\<close>

lemma setitem2_ok:
  assumes "a \<in> fst ` set sd"
  shows "\<exists>sd'. setitem2 sd a b v = Inr sd' \<and> map fst sd' = map fst sd \<and>
           (\<forall>x y. getitem2 sd' x y = (if x = a \<and> y = b then Inr v else getitem2 sd x y))"
proof -
  from assms obtain row where row: "map_of sd a = Some row"
    by (metis domD dom_map_of_conv_image_fst)
  let ?sd' = "AList.update a (AList.update b v row) sd"
  have s: "setitem2 sd a b v = Inr ?sd'" using row by (simp add: setitem2_def)
  have k: "map fst ?sd' = map fst sd" using assms by (simp add: update_keys)
  have g: "getitem2 ?sd' x y = (if x = a \<and> y = b then Inr v else getitem2 sd x y)" for x y
    using row by (simp add: getitem2_def update_conv')
  from s k g show ?thesis by blast
qed

text \<open>One pass of the inner loop body, for keys m1, m2 whose scores exist.\<close>

lemma inner_loop_spec:
  assumes sc: "\<forall>m2\<in>set m2s. \<exists>o1 r1 o2 r2. getitem2 d m1 m2 = Inr (sim m1 m2, o1, r1) \<and>
                                          getitem2 d m2 m1 = Inr (sim m2 m1, o2, r2)"
    and l1: "lab m1 \<in> fst ` set sd"
    and l2: "\<forall>m2\<in>set m2s. lab m2 \<in> fst ` set sd"
  shows "\<exists>sd'. inner_loop d m1 (lab m1) (map (\<lambda>m. (m, lab m)) m2s) sd = Inr sd' \<and>
           map fst sd' = map fst sd \<and>
           (\<forall>x y v. getitem2 sd' x y = Inr v \<longrightarrow>
              getitem2 sd x y = Inr v \<or>
              (\<exists>m2\<in>set m2s. v = round3 (1 - mean2 (sim m1 m2) (sim m2 m1)) \<and>
                 ((x = lab m1 \<and> y = lab m2) \<or> (x = lab m2 \<and> y = lab m1)))) \<and>
           (\<forall>x y. (\<exists>v. getitem2 sd x y = Inr v) \<longrightarrow> (\<exists>v. getitem2 sd' x y = Inr v)) \<and>
           (\<forall>m2\<in>set m2s. (\<exists>v. getitem2 sd' (lab m1) (lab m2) = Inr v) \<and>
                          (\<exists>v. getitem2 sd' (lab m2) (lab m1) = Inr v))"
  using assms
proof (induction m2s arbitrary: sd)
  case Nil
  then show ?case by simp
next
  case (Cons m2 m2s)
  let ?v = "round3 (1 - mean2 (sim m1 m2) (sim m2 m1))"
  from Cons.prems(1) obtain o1 r1 o2 r2 where
    g1: "getitem2 d m1 m2 = Inr (sim m1 m2, o1, r1)" and
    g2: "getitem2 d m2 m1 = Inr (sim m2 m1, o2, r2)" by auto
  from setitem2_ok [OF Cons.prems(2), of "lab m2" ?v] obtain sd1 where
    s1: "setitem2 sd (lab m1) (lab m2) ?v = Inr sd1" and
    k1: "map fst sd1 = map fst sd" and
    q1: "\<forall>x y. getitem2 sd1 x y = (if x = lab m1 \<and> y = lab m2 then Inr ?v else getitem2 sd x y)"
    by blast
  from Cons.prems(3) k1 have "lab m2 \<in> fst ` set sd1"
    by (metis list.set_intros(1) list.set_map)
  from setitem2_ok [OF this, of "lab m1" ?v] obtain sd2 where
    s2: "setitem2 sd1 (lab m2) (lab m1) ?v = Inr sd2" and
    k2: "map fst sd2 = map fst sd1" and
    q2: "\<forall>x y. getitem2 sd2 x y = (if x = lab m2 \<and> y = lab m1 then Inr ?v else getitem2 sd1 x y)"
    by blast
  have keys: "fst ` set sd2 = fst ` set sd"
    using k1 k2 by (metis list.set_map)
  have step: "inner_loop d m1 (lab m1) (map (\<lambda>m. (m, lab m)) (m2 # m2s)) sd =
              inner_loop d m1 (lab m1) (map (\<lambda>m. (m, lab m)) m2s) sd2"
    using g1 g2 s1 s2 by simp
  have p1: "\<forall>m2\<in>set m2s. \<exists>o1 r1 o2 r2. getitem2 d m1 m2 = Inr (sim m1 m2, o1, r1) \<and>
                                          getitem2 d m2 m1 = Inr (sim m2 m1, o2, r2)"
    using Cons.prems(1) by simp
  have p2: "lab m1 \<in> fst ` set sd2" using Cons.prems(2) keys by simp
  have p3: "\<forall>m2\<in>set m2s. lab m2 \<in> fst ` set sd2" using Cons.prems(3) keys by simp
  from Cons.IH [OF p1 p2 p3] obtain sd' where
    r: "inner_loop d m1 (lab m1) (map (\<lambda>m. (m, lab m)) m2s) sd2 = Inr sd'" and
    k: "map fst sd' = map fst sd2" and
    val: "\<forall>x y v. getitem2 sd' x y = Inr v \<longrightarrow>
              getitem2 sd2 x y = Inr v \<or>
              (\<exists>m2\<in>set m2s. v = round3 (1 - mean2 (sim m1 m2) (sim m2 m1)) \<and>
                 ((x = lab m1 \<and> y = lab m2) \<or> (x = lab m2 \<and> y = lab m1)))" and
    mono: "\<forall>x y. (\<exists>v. getitem2 sd2 x y = Inr v) \<longrightarrow> (\<exists>v. getitem2 sd' x y = Inr v)" and
    don: "\<forall>m2\<in>set m2s. (\<exists>v. getitem2 sd' (lab m1) (lab m2) = Inr v) \<and>
                          (\<exists>v. getitem2 sd' (lab m2) (lab m1) = Inr v)"
    by blast
  have c1: "inner_loop d m1 (lab m1) (map (\<lambda>m. (m, lab m)) (m2 # m2s)) sd = Inr sd'"
    using step r by simp
  have c2: "map fst sd' = map fst sd" using k k1 k2 by simp
  have c3: "getitem2 sd x y = Inr v \<or>
              (\<exists>m\<in>set (m2 # m2s). v = round3 (1 - mean2 (sim m1 m) (sim m m1)) \<and>
                 ((x = lab m1 \<and> y = lab m) \<or> (x = lab m \<and> y = lab m1)))"
    if "getitem2 sd' x y = Inr v" for x y v
  proof -
    from val that have "getitem2 sd2 x y = Inr v \<or>
              (\<exists>m2\<in>set m2s. v = round3 (1 - mean2 (sim m1 m2) (sim m2 m1)) \<and>
                 ((x = lab m1 \<and> y = lab m2) \<or> (x = lab m2 \<and> y = lab m1)))" by blast
    then show ?thesis
    proof
      assume g: "getitem2 sd2 x y = Inr v"
      show ?thesis
      proof (cases "x = lab m2 \<and> y = lab m1")
        case True
        with g q2 have "v = ?v" by simp
        with True show ?thesis by simp
      next
        case False
        with g q2 have g1: "getitem2 sd1 x y = Inr v" by simp
        show ?thesis
        proof (cases "x = lab m1 \<and> y = lab m2")
          case True
          with g1 q1 have "v = ?v" by simp
          with True show ?thesis by simp
        next
          case False
          with g1 q1 have "getitem2 sd x y = Inr v" by simp
          then show ?thesis by simp
        qed
      qed
    next
      assume "\<exists>m2\<in>set m2s. v = round3 (1 - mean2 (sim m1 m2) (sim m2 m1)) \<and>
                 ((x = lab m1 \<and> y = lab m2) \<or> (x = lab m2 \<and> y = lab m1))"
      then show ?thesis by auto
    qed
  qed
  have m12: "\<exists>v. getitem2 sd2 x y = Inr v" if "\<exists>v. getitem2 sd x y = Inr v" for x y
    using that q1 [rule_format, of x y] q2 [rule_format, of x y] by (simp split: if_splits)
  have c4: "\<exists>v. getitem2 sd' x y = Inr v" if "\<exists>v. getitem2 sd x y = Inr v" for x y
    using m12 [OF that] mono by blast
  have d2: "(\<exists>v. getitem2 sd2 (lab m1) (lab m2) = Inr v) \<and> (\<exists>v. getitem2 sd2 (lab m2) (lab m1) = Inr v)"
    using q1 [rule_format, of "lab m1" "lab m2"] q2 [rule_format, of "lab m1" "lab m2"]
      q2 [rule_format, of "lab m2" "lab m1"] by (simp split: if_splits)
  have c5: "\<forall>m\<in>set (m2 # m2s). (\<exists>v. getitem2 sd' (lab m1) (lab m) = Inr v) \<and>
                          (\<exists>v. getitem2 sd' (lab m) (lab m1) = Inr v)"
    using don d2 mono by auto
  from c1 c2 c3 c4 c5 show ?case by blast
qed

lemma outer_loop_spec:
  assumes sc: "\<forall>m1\<in>set m1s. \<forall>m2\<in>set m2s. \<exists>o1 r1 o2 r2.
                  getitem2 d m1 m2 = Inr (sim m1 m2, o1, r1) \<and>
                  getitem2 d m2 m1 = Inr (sim m2 m1, o2, r2)"
    and l1: "\<forall>m1\<in>set m1s. lab m1 \<in> fst ` set sd"
    and l2: "\<forall>m2\<in>set m2s. lab m2 \<in> fst ` set sd"
  shows "\<exists>sd'. outer_loop d (map (\<lambda>m. (m, lab m)) m1s) (map (\<lambda>m. (m, lab m)) m2s) sd = Inr sd' \<and>
           map fst sd' = map fst sd \<and>
           (\<forall>x y v. getitem2 sd' x y = Inr v \<longrightarrow>
              getitem2 sd x y = Inr v \<or>
              (\<exists>m1\<in>set m1s. \<exists>m2\<in>set m2s. v = round3 (1 - mean2 (sim m1 m2) (sim m2 m1)) \<and>
                 ((x = lab m1 \<and> y = lab m2) \<or> (x = lab m2 \<and> y = lab m1)))) \<and>
           (\<forall>x y. (\<exists>v. getitem2 sd x y = Inr v) \<longrightarrow> (\<exists>v. getitem2 sd' x y = Inr v)) \<and>
           (\<forall>m1\<in>set m1s. \<forall>m2\<in>set m2s. \<exists>v. getitem2 sd' (lab m1) (lab m2) = Inr v)"
  using assms
proof (induction m1s arbitrary: sd)
  case Nil
  then show ?case by simp
next
  case (Cons m1 m1s)
  have i1: "\<forall>m2\<in>set m2s. \<exists>o1 r1 o2 r2. getitem2 d m1 m2 = Inr (sim m1 m2, o1, r1) \<and>
                                          getitem2 d m2 m1 = Inr (sim m2 m1, o2, r2)"
    using Cons.prems(1) by simp
  have i2: "lab m1 \<in> fst ` set sd" using Cons.prems(2) by simp
  from inner_loop_spec [OF i1 i2 Cons.prems(3)] obtain sd1 where
    r1: "inner_loop d m1 (lab m1) (map (\<lambda>m. (m, lab m)) m2s) sd = Inr sd1" and
    k1: "map fst sd1 = map fst sd" and
    v1: "\<forall>x y v. getitem2 sd1 x y = Inr v \<longrightarrow>
              getitem2 sd x y = Inr v \<or>
              (\<exists>m2\<in>set m2s. v = round3 (1 - mean2 (sim m1 m2) (sim m2 m1)) \<and>
                 ((x = lab m1 \<and> y = lab m2) \<or> (x = lab m2 \<and> y = lab m1)))" and
    mo1: "\<forall>x y. (\<exists>v. getitem2 sd x y = Inr v) \<longrightarrow> (\<exists>v. getitem2 sd1 x y = Inr v)" and
    d1: "\<forall>m2\<in>set m2s. (\<exists>v. getitem2 sd1 (lab m1) (lab m2) = Inr v) \<and>
                          (\<exists>v. getitem2 sd1 (lab m2) (lab m1) = Inr v)"
    by blast
  have keys: "fst ` set sd1 = fst ` set sd" using k1 by (metis list.set_map)
  have p1: "\<forall>m1\<in>set m1s. \<forall>m2\<in>set m2s. \<exists>o1 r1 o2 r2.
                  getitem2 d m1 m2 = Inr (sim m1 m2, o1, r1) \<and>
                  getitem2 d m2 m1 = Inr (sim m2 m1, o2, r2)"
    using Cons.prems(1) by simp
  have p2: "\<forall>m1\<in>set m1s. lab m1 \<in> fst ` set sd1" using Cons.prems(2) keys by simp
  have p3: "\<forall>m2\<in>set m2s. lab m2 \<in> fst ` set sd1" using Cons.prems(3) keys by simp
  from Cons.IH [OF p1 p2 p3] obtain sd' where
    r: "outer_loop d (map (\<lambda>m. (m, lab m)) m1s) (map (\<lambda>m. (m, lab m)) m2s) sd1 = Inr sd'" and
    k: "map fst sd' = map fst sd1" and
    val: "\<forall>x y v. getitem2 sd' x y = Inr v \<longrightarrow>
              getitem2 sd1 x y = Inr v \<or>
              (\<exists>m1\<in>set m1s. \<exists>m2\<in>set m2s. v = round3 (1 - mean2 (sim m1 m2) (sim m2 m1)) \<and>
                 ((x = lab m1 \<and> y = lab m2) \<or> (x = lab m2 \<and> y = lab m1)))" and
    mono: "\<forall>x y. (\<exists>v. getitem2 sd1 x y = Inr v) \<longrightarrow> (\<exists>v. getitem2 sd' x y = Inr v)" and
    don: "\<forall>m1\<in>set m1s. \<forall>m2\<in>set m2s. \<exists>v. getitem2 sd' (lab m1) (lab m2) = Inr v"
    by blast
  have c1: "outer_loop d (map (\<lambda>m. (m, lab m)) (m1 # m1s)) (map (\<lambda>m. (m, lab m)) m2s) sd = Inr sd'"
    using r1 r by simp
  have c2: "map fst sd' = map fst sd" using k k1 by simp
  have c3: "getitem2 sd x y = Inr v \<or>
              (\<exists>a\<in>set (m1 # m1s). \<exists>m2\<in>set m2s. v = round3 (1 - mean2 (sim a m2) (sim m2 a)) \<and>
                 ((x = lab a \<and> y = lab m2) \<or> (x = lab m2 \<and> y = lab a)))"
    if g: "getitem2 sd' x y = Inr v" for x y v
  proof -
    from val g have "getitem2 sd1 x y = Inr v \<or>
              (\<exists>m1\<in>set m1s. \<exists>m2\<in>set m2s. v = round3 (1 - mean2 (sim m1 m2) (sim m2 m1)) \<and>
                 ((x = lab m1 \<and> y = lab m2) \<or> (x = lab m2 \<and> y = lab m1)))" by blast
    then show ?thesis
    proof
      assume "getitem2 sd1 x y = Inr v"
      with v1 have "getitem2 sd x y = Inr v \<or>
              (\<exists>m2\<in>set m2s. v = round3 (1 - mean2 (sim m1 m2) (sim m2 m1)) \<and>
                 ((x = lab m1 \<and> y = lab m2) \<or> (x = lab m2 \<and> y = lab m1)))" by blast
      then show ?thesis by auto
    next
      assume "\<exists>m1\<in>set m1s. \<exists>m2\<in>set m2s. v = round3 (1 - mean2 (sim m1 m2) (sim m2 m1)) \<and>
                 ((x = lab m1 \<and> y = lab m2) \<or> (x = lab m2 \<and> y = lab m1))"
      then show ?thesis by auto
    qed
  qed
  have c4: "\<exists>v. getitem2 sd' x y = Inr v" if "\<exists>v. getitem2 sd x y = Inr v" for x y
    using that mo1 mono by blast
  have c5: "\<forall>a\<in>set (m1 # m1s). \<forall>m2\<in>set m2s. \<exists>v. getitem2 sd' (lab a) (lab m2) = Inr v"
    using don d1 mono by auto
  from c1 c2 c3 c4 c5 show ?case by blast
qed

lemma init_rows:
  "map_of (foldl (\<lambda>d m. AList.update m [] d) d0 ls) k =
     (if k \<in> set ls then Some [] else map_of d0 k)"
  by (induction ls arbitrary: d0) (auto simp: update_conv')

lemma init_keys:
  "fst ` set (foldl (\<lambda>d m. AList.update m ([] :: (string \<times> real) list) d) [] ls) = set ls"
proof -
  have "dom (map_of (foldl (\<lambda>d m. AList.update m ([] :: (string \<times> real) list) d) [] ls)) = set ls"
    by (auto simp: init_rows dom_def)
  then show ?thesis by (simp add: dom_map_of_conv_image_fst)
qed

lemma init_empty:
  "getitem2 (foldl (\<lambda>d m. AList.update m ([] :: (string \<times> real) list) d) [] ls) x y = Inl KeyError"
  by (simp add: getitem2_def init_rows)

lemma column_of_map:
  "\<forall>m2\<in>set m2s. getitem2 sd l1 (lab m2) = Inr (g m2) \<Longrightarrow>
   column_of sd l1 (map lab m2s) = Inr (map g m2s)"
  by (induction m2s) auto

lemma update_fresh: "k \<notin> fst ` set al \<Longrightarrow> AList.update k v al = al @ [(k, v)]"
  by (induction al) auto

lemma format_loop_map:
  assumes "\<forall>m1\<in>set m1s. \<forall>m2\<in>set m2s. getitem2 sd (lab m1) (lab m2) = Inr (g m1 m2)"
    and "distinct (map lab m1s)"
    and "lab ` set m1s \<inter> fst ` set acc = {}"
  shows "format_loop sd (map lab m1s) (map lab m2s) acc =
           Inr (acc @ map (\<lambda>m1. (lab m1, map (g m1) m2s)) m1s)"
  using assms
proof (induction m1s arbitrary: acc)
  case Nil
  then show ?case by simp
next
  case (Cons m1 m1s)
  from Cons.prems(1) have col: "column_of sd (lab m1) (map lab m2s) = Inr (map (g m1) m2s)"
    by (intro column_of_map) simp
  from Cons.prems(3) have fresh: "lab m1 \<notin> fst ` set acc" by auto
  let ?acc = "acc @ [(lab m1, map (g m1) m2s)]"
  have u: "AList.update (lab m1) (map (g m1) m2s) acc = ?acc"
    using fresh by (rule update_fresh)
  have p1: "\<forall>a\<in>set m1s. \<forall>m2\<in>set m2s. getitem2 sd (lab a) (lab m2) = Inr (g a m2)"
    using Cons.prems(1) by simp
  have p2: "distinct (map lab m1s)" using Cons.prems(2) by simp
  have p3: "lab ` set m1s \<inter> fst ` set ?acc = {}"
    using Cons.prems(2,3) by auto
  from Cons.IH [OF p1 p2 p3] col u show ?case by simp
qed

lemma map_of_zip_map:
  "inj_on f (set xs) \<Longrightarrow> x \<in> set xs \<Longrightarrow> map_of (zip (map f xs) (map g xs)) (f x) = Some (g x)"
  by (induction xs) (auto simp: inj_on_def)

lemma zip_map_self: "zip xs (map f xs) = map (\<lambda>x. (x, f x)) xs"
  by (induction xs) auto

lemma matrix_builder_entries:
  assumes ne: "score_dict \<noteq> []"
    and dist: "distinct (map fst score_dict)"
    and keys: "set (map fst (snd (hd score_dict))) = set (map fst score_dict)"
    and inj: "inj_on replace_tab (set (map fst score_dict))"
    and sc: "\<forall>a\<in>set (map fst score_dict). \<forall>b\<in>set (map fst score_dict).
               \<exists>off ori. getitem2 score_dict a b = Inr (sim a b, off, ori)"
  shows "\<exists>matrix. generate_similarity_matrix score_dict = Inr matrix \<and>
           columns matrix = map replace_tab (map fst score_dict) \<and>
           index matrix = map replace_tab (map fst (snd (hd score_dict))) \<and>
           (\<forall>a\<in>set (map fst score_dict). \<forall>b\<in>set (map fst score_dict).
              entry matrix (replace_tab a) (replace_tab b) =
                Some (round3 (1 - mean2 (sim a b) (sim b a))))"
proof -
  let ?m1 = "map fst score_dict"
  let ?m2 = "map fst (snd (hd score_dict))"
  let ?lab = replace_tab
  let ?F = "\<lambda>a b. round3 (1 - mean2 (sim a b) (sim b a))"
  let ?sd0 = "foldl (\<lambda>d m. AList.update m ([] :: (string \<times> real) list) d) [] (map ?lab ?m1)"
  from ne obtain k first others where d: "score_dict = (k, first) # others"
    by (cases score_dict) auto
  have Fsym: "?F a b = ?F b a" for a b by (simp add: mean2_def add.commute)
  have sc': "\<forall>m1\<in>set ?m1. \<forall>m2\<in>set ?m2. \<exists>o1 r1 o2 r2.
                  getitem2 score_dict m1 m2 = Inr (sim m1 m2, o1, r1) \<and>
                  getitem2 score_dict m2 m1 = Inr (sim m2 m1, o2, r2)"
  proof (intro ballI)
    fix m1 m2 assume a: "m1 \<in> set ?m1" and "m2 \<in> set ?m2"
    with keys have b: "m2 \<in> set ?m1" by simp
    from sc a b obtain o1 r1 where "getitem2 score_dict m1 m2 = Inr (sim m1 m2, o1, r1)" by blast
    moreover from sc a b obtain o2 r2 where "getitem2 score_dict m2 m1 = Inr (sim m2 m1, o2, r2)"
      by blast
    ultimately show "\<exists>o1 r1 o2 r2. getitem2 score_dict m1 m2 = Inr (sim m1 m2, o1, r1) \<and>
                  getitem2 score_dict m2 m1 = Inr (sim m2 m1, o2, r2)" by blast
  qed
  have k0: "fst ` set ?sd0 = set (map ?lab ?m1)" by (rule init_keys)
  have l1: "\<forall>m1\<in>set ?m1. ?lab m1 \<in> fst ` set ?sd0" using k0 by simp
  have l2: "\<forall>m2\<in>set ?m2. ?lab m2 \<in> fst ` set ?sd0" using k0 keys by simp
  from outer_loop_spec [OF sc' l1 l2] obtain sd where
    r: "outer_loop score_dict (map (\<lambda>m. (m, ?lab m)) ?m1) (map (\<lambda>m. (m, ?lab m)) ?m2) ?sd0 = Inr sd" and
    val: "\<forall>x y v. getitem2 sd x y = Inr v \<longrightarrow>
              getitem2 ?sd0 x y = Inr v \<or>
              (\<exists>m1\<in>set ?m1. \<exists>m2\<in>set ?m2. v = ?F m1 m2 \<and>
                 ((x = ?lab m1 \<and> y = ?lab m2) \<or> (x = ?lab m2 \<and> y = ?lab m1)))" and
    don: "\<forall>m1\<in>set ?m1. \<forall>m2\<in>set ?m2. \<exists>v. getitem2 sd (?lab m1) (?lab m2) = Inr v"
    by blast
  have ent: "getitem2 sd (?lab a) (?lab b) = Inr (?F a b)"
    if a: "a \<in> set ?m1" and b: "b \<in> set ?m2" for a b
  proof -
    from don a b obtain v where v: "getitem2 sd (?lab a) (?lab b) = Inr v" by blast
    with val init_empty [of "map ?lab ?m1" "?lab a" "?lab b"]
    obtain m1 m2 where m: "m1 \<in> set ?m1" "m2 \<in> set ?m2" "v = ?F m1 m2"
      "(?lab a = ?lab m1 \<and> ?lab b = ?lab m2) \<or> (?lab a = ?lab m2 \<and> ?lab b = ?lab m1)"
      by (metis sum.simps(4))
    from m(4) show ?thesis
    proof
      assume "?lab a = ?lab m1 \<and> ?lab b = ?lab m2"
      with inj a b m(1,2) keys have "a = m1" "b = m2" by (auto dest: inj_onD)
      with v m(3) show ?thesis by simp
    next
      assume "?lab a = ?lab m2 \<and> ?lab b = ?lab m1"
      with inj a b m(1,2) keys have "a = m2" "b = m1" by (auto dest: inj_onD)
      with v m(3) Fsym [of m1 m2] show ?thesis by simp
    qed
  qed
  have dl: "distinct (map ?lab ?m1)"
    using dist inj distinct_map [of ?lab ?m1] by blast
  have "format_loop sd (map ?lab ?m1) (map ?lab ?m2) [] =
          Inr ([] @ map (\<lambda>m1. (?lab m1, map (?F m1) ?m2)) ?m1)"
    by (rule format_loop_map) (use ent dl in auto)
  then have fmt: "format_loop sd (map ?lab ?m1) (map ?lab ?m2) [] =
          Inr (map (\<lambda>m1. (?lab m1, map (?F m1) ?m2)) ?m1)" by simp
  let ?matrix = "\<lparr>columns = map ?lab ?m1, index = map ?lab ?m2,
                   data = map (\<lambda>m1. map (?F m1) ?m2) ?m1\<rparr>"
  have rz: "(\<lambda>v::real. if v = - 0 then 0 else v) = (\<lambda>v. v)" by auto
  have g: "generate_similarity_matrix score_dict = Inr ?matrix"
    using r fmt d
    by (simp add: generate_similarity_matrix_def Let_def zip_map_self rz comp_def del: outer_loop.simps format_loop.simps)
  have e: "entry ?matrix (?lab a) (?lab b) = Some (?F a b)"
    if a: "a \<in> set ?m1" and b: "b \<in> set ?m1" for a b
  proof -
    have c: "map_of (zip (map ?lab ?m1) (map (\<lambda>m1. map (?F m1) ?m2) ?m1)) (?lab a) =
             Some (map (?F a) ?m2)"
      using inj a by (rule map_of_zip_map)
    from inj keys have inj2: "inj_on ?lab (set ?m2)" by simp
    from b keys have b2: "b \<in> set ?m2" by simp
    have "map_of (zip (map ?lab ?m2) (map (?F a) ?m2)) (?lab b) = Some (?F a b)"
      using inj2 b2 by (rule map_of_zip_map)
    with c show ?thesis by (simp add: entry_def)
  qed
  from g e show ?thesis by fastforce
qed

section \<open>Clustering and the per-cluster motif lists\<close>

text \<open>
  The primitives of scipy that \<open>cluster_motifs\<close> calls: \<open>squareform\<close>, \<open>linkage\<close> and
  \<open>fcluster(linkage_mat, threshold, criterion="distance")\<close>.
  \<^verbatim>\<open>
  vector = ssd.squareform(similarity_matrix.to_numpy())
  linkage_mat = linkage(vector, method=method)
  labels = fcluster(linkage_mat, threshold, criterion="distance")
  cluster = get_cluster(labels, similarity_matrix.index.values)
  return linkage_mat, cluster
  \<close>
\<close>

record ('vec, 'lnk) scipy =
  squareform :: "real list list \<Rightarrow> 'vec"
  linkage :: "'vec \<Rightarrow> string \<Rightarrow> 'lnk"
  fcluster :: "'lnk \<Rightarrow> real \<Rightarrow> int list"

definition to_numpy :: "dataframe \<Rightarrow> real list list" where
  "to_numpy matrix = map (\<lambda>r. map (\<lambda>col. col ! r) (data matrix)) [0..<length (index matrix)]"

definition cluster_motifs ::
  "('vec, 'lnk) scipy \<Rightarrow> dataframe \<Rightarrow> real \<Rightarrow> string \<Rightarrow> error + ('lnk \<times> cluster_dict)" where
  "cluster_motifs sp similarity_matrix threshold method =
     (let vector = squareform sp (to_numpy similarity_matrix);
          linkage_mat = linkage sp vector method;
          labels = fcluster sp linkage_mat threshold
      in case get_cluster labels (index similarity_matrix) of
           Inl e \<Rightarrow> Inl e
         | Inr cluster \<Rightarrow> Inr (linkage_mat, cluster))"

text \<open>
  \<^verbatim>\<open>
  consensus_motifs = dict()
  for cluster, value in cluster.items():
      cluster_motifs = list()
      for m in motif_list:
          if m.id in value:
              cluster_motifs.append(m)
      consensus_motifs[cluster] = generate_consensus_motif(cluster_motifs, similarity_dict)
  return consensus_motifs
  \<close>
  \<open>cluster_members\<close> is the inner loop: the motifs whose raw identifier is in the cluster's
  list, in the order of \<open>motif_list\<close>.
\<close>

definition cluster_members :: "motif list \<Rightarrow> string list \<Rightarrow> motif list" where
  "cluster_members motif_list value = filter (\<lambda>m. id' m \<in> set value) motif_list"

fun consensus_loop ::
  "gimme \<Rightarrow> motif list \<Rightarrow> cluster_dict \<Rightarrow> score_dict \<Rightarrow> (string \<times> motif) list \<Rightarrow>
   error + (string \<times> motif) list" where
  "consensus_loop mc motif_list [] similarity_dict consensus_motifs = Inr consensus_motifs"
| "consensus_loop mc motif_list ((cluster, value) # rest) similarity_dict consensus_motifs =
     (case generate_consensus_motif mc (cluster_members motif_list value) similarity_dict of
        Inl e \<Rightarrow> Inl e
      | Inr r \<Rightarrow>
          consensus_loop mc motif_list rest similarity_dict
            (AList.update cluster (cons_motif r) consensus_motifs))"

definition generate_consensus_motifs ::
  "gimme \<Rightarrow> motif list \<Rightarrow> cluster_dict \<Rightarrow> score_dict \<Rightarrow> error + (string \<times> motif) list" where
  "generate_consensus_motifs mc motif_list cluster similarity_dict =
     consensus_loop mc motif_list cluster similarity_dict []"

lemma in_set_updateD: "p \<in> set (AList.update k v al) \<Longrightarrow> p = (k, v) \<or> p \<in> set al"
  by (induction al) (auto split: if_splits)

lemma append_item_members:
  assumes "\<forall>(k, v)\<in>set c. set v \<subseteq> S" and "x \<in> S"
  shows "\<forall>(k, v)\<in>set (append_item c key x). set v \<subseteq> S"
proof -
  define old where "old = (case map_of c key of None \<Rightarrow> [] | Some xs \<Rightarrow> xs)"
  have old: "set old \<subseteq> S"
  proof (cases "map_of c key")
    case None
    then show ?thesis by (simp add: old_def)
  next
    case (Some xs)
    then have "(key, xs) \<in> set c" by (rule map_of_SomeD)
    with assms(1) have "set xs \<subseteq> S" by blast
    with Some show ?thesis by (simp add: old_def)
  qed
  have new: "set (old @ [x]) \<subseteq> S" using old assms(2) by simp
  show ?thesis
  proof (intro ballI)
    fix p assume "p \<in> set (append_item c key x)"
    then have "p \<in> set (AList.update key (old @ [x]) c)"
      by (simp only: append_item_def old_def)
    then have "p = (key, old @ [x]) \<or> p \<in> set c"
      by (rule in_set_updateD)
    then show "case p of (k, v) \<Rightarrow> set v \<subseteq> S"
    proof
      assume "p = (key, old @ [x])"
      with new show ?thesis by simp
    next
      assume "p \<in> set c"
      with assms(1) show ?thesis by blast
    qed
  qed
qed

lemma get_cluster_loop_members:
  "get_cluster_loop labels names is c = Inr c' \<Longrightarrow> \<forall>(k, v)\<in>set c. set v \<subseteq> set names \<Longrightarrow>
   \<forall>(k, v)\<in>set c'. set v \<subseteq> set names"
proof (induction "is" arbitrary: c)
  case Nil
  then show ?case by simp
next
  case (Cons i "is")
  from Cons.prems(1) have i: "i < length names" and
    r: "get_cluster_loop labels names is
          (append_item c (''Cluster_'' @ str_int (labels ! i)) (names ! i)) = Inr c'"
    by (auto split: if_splits)
  from i have "names ! i \<in> set names" by simp
  with Cons.prems(2) have "\<forall>(k, v)\<in>set (append_item c (''Cluster_'' @ str_int (labels ! i)) (names ! i)).
      set v \<subseteq> set names"
    by (rule append_item_members)
  with Cons.IH [OF r] show ?case by blast
qed

lemma get_cluster_members:
  "get_cluster labels names = Inr cluster \<Longrightarrow> (k, value) \<in> set cluster \<Longrightarrow> set value \<subseteq> set names"
  using get_cluster_loop_members [of labels names "[0..<length labels]" "[]" cluster]
  by (auto simp: get_cluster_def)

lemma generate_similarity_matrix_index:
  "generate_similarity_matrix score_dict = Inr matrix \<Longrightarrow>
   index matrix = map replace_tab (map fst (snd (hd score_dict)))"
  by (auto simp: generate_similarity_matrix_def Let_def split: list.splits sum.splits)

lemma replace_tab_no_tab: "CHR 0x09 \<notin> set (replace_tab s)"
  by (auto simp: replace_tab_def)

lemma replace_tab_id: "CHR 0x09 \<notin> set s \<Longrightarrow> replace_tab s = s"
  by (auto simp: replace_tab_def intro: map_idI)

lemma tab_identifiers_dropped:
  assumes gsm: "generate_similarity_matrix score_dict = Inr matrix"
    and cl: "cluster_motifs sp matrix threshold method = Inr (lnk, cluster)"
    and mem: "(k, value) \<in> set cluster"
  shows "(\<forall>v\<in>set value. CHR 0x09 \<notin> set v) \<and>
         (\<forall>m. CHR 0x09 \<in> set (id' m) \<longrightarrow> m \<notin> set (cluster_members motif_list value)) \<and>
         ((\<forall>m\<in>set motif_list. replace_tab (id' m) \<in> set value \<longrightarrow> CHR 0x09 \<in> set (id' m)) \<longrightarrow>
            cluster_members motif_list value = [] \<and>
            generate_consensus_motif mc (cluster_members motif_list value) similarity_dict =
              Inl UnboundLocalError)"
proof -
  from cl obtain labels where "get_cluster labels (index matrix) = Inr cluster"
    by (auto simp: cluster_motifs_def Let_def split: sum.splits)
  from get_cluster_members [OF this mem] have "set value \<subseteq> set (index matrix)" .
  with generate_similarity_matrix_index [OF gsm]
  have nt: "\<forall>v\<in>set value. CHR 0x09 \<notin> set v"
    using replace_tab_no_tab by auto
  have a: "\<forall>m. CHR 0x09 \<in> set (id' m) \<longrightarrow> m \<notin> set (cluster_members motif_list value)"
    using nt by (auto simp: cluster_members_def)
  have b: "cluster_members motif_list value = []"
    if h: "\<forall>m\<in>set motif_list. replace_tab (id' m) \<in> set value \<longrightarrow> CHR 0x09 \<in> set (id' m)"
  proof -
    have "id' m \<notin> set value" if m: "m \<in> set motif_list" for m
    proof
      assume v: "id' m \<in> set value"
      with nt have t: "CHR 0x09 \<notin> set (id' m)" by blast
      then have "replace_tab (id' m) = id' m" by (rule replace_tab_id)
      with v h m have "CHR 0x09 \<in> set (id' m)" by simp
      with t show False by contradiction
    qed
    then show ?thesis by (simp add: cluster_members_def)
  qed
  have c: "generate_consensus_motif mc [] similarity_dict = Inl UnboundLocalError"
    by (simp add: generate_consensus_motif.simps merge_level_def loop_init_def)
  from nt a b c show ?thesis by simp
qed

subsection \<open>Concrete score maps\<close>

text \<open>
  Three motifs whose directional scores for (A,B) differ (0.9 and 0.7) and whose
  self-similarity for A is 0.99; and two motifs, one with a tab in its identifier, with a
  stand-in for scipy that cuts them into two clusters.
\<close>

definition asym_sim :: "string \<Rightarrow> string \<Rightarrow> real" where
  "asym_sim a b =
     (if a = b then (if a = ''A'' then 99/100 else 1)
      else if (a, b) = (''A'', ''B'') then 9/10
      else if (a, b) = (''B'', ''A'') then 7/10
      else if (a, b) \<in> {(''A'', ''C''), (''C'', ''A'')} then 2/10
      else 3/10)"

definition asym_scores :: score_dict where
  "asym_scores = score_table [''A'', ''B'', ''C''] (\<lambda>a b. (asym_sim a b, 0, 1))"

definition asym_matrix :: dataframe where
  "asym_matrix = \<lparr>columns = [''A'', ''B'', ''C''], index = [''A'', ''B'', ''C''],
        data = [[1/100, 2/10, 8/10], [2/10, 0, 7/10], [8/10, 7/10, 0]]\<rparr>"

lemma asym_eval: "generate_similarity_matrix asym_scores = Inr asym_matrix"
  by (simp add: generate_similarity_matrix_def asym_scores_def asym_sim_def score_table_def Let_def
      replace_tab_def getitem2_def setitem2_def round3_def mean2_def rint_def asym_matrix_def)

lemma asym_ne: "asym_scores \<noteq> []"
  by (simp add: asym_scores_def score_table_def)

lemma asym_dist: "distinct (map fst asym_scores)"
  by (simp add: asym_scores_def score_table_def)

lemma asym_keys: "set (map fst (snd (hd asym_scores))) = set (map fst asym_scores)"
  by (simp add: asym_scores_def score_table_def)

lemma asym_inj: "inj_on replace_tab (set (map fst asym_scores))"
  by (simp add: asym_scores_def score_table_def replace_tab_def)

lemma asym_sc: "\<forall>a\<in>set (map fst asym_scores). \<forall>b\<in>set (map fst asym_scores).
               \<exists>off ori. getitem2 asym_scores a b = Inr (asym_sim a b, off, ori)"
  by (simp add: asym_scores_def score_table_def getitem2_def)

definition tab_id :: string where
  "tab_id = [CHR ''A'', CHR 0x09, CHR ''x'']"

definition tab_scores :: score_dict where
  "tab_scores = score_table [tab_id, ''B'']
     (\<lambda>a b. if a = b then (1, 0, 1) else (1/2, 0, 1))"

definition tab_motifs :: "motif list" where
  "tab_motifs = [mk_motif tab_id, mk_motif ''B'']"

definition tab_matrix :: dataframe where
  "tab_matrix = \<lparr>columns = [''A x'', ''B''], index = [''A x'', ''B''],
        data = [[0, 1/2], [1/2, 0]]\<rparr>"

definition example_scipy :: "(unit, unit) scipy" where
  "example_scipy = \<lparr>squareform = (\<lambda>m. ()), linkage = (\<lambda>v s. ()), fcluster = (\<lambda>l t. [1, 2])\<rparr>"

lemma tab_eval: "generate_similarity_matrix tab_scores = Inr tab_matrix"
  by (simp add: generate_similarity_matrix_def tab_scores_def tab_id_def score_table_def Let_def
      replace_tab_def getitem2_def setitem2_def round3_def mean2_def rint_def tab_matrix_def)

lemma tab_cluster: "cluster_motifs example_scipy tab_matrix (1/2) ''average'' =
    Inr ((), [(''Cluster_1'', [''A x'']), (''Cluster_2'', [''B''])])"
  by (simp add: cluster_motifs_def example_scipy_def tab_matrix_def get_cluster_def
      upt_conv_Cons append_item_def str_int_def str_nat.simps digit_char_def Let_def)

subsection \<open>Claims about the score matrix\<close>

text \<open>
  The values of the matrix are float64 results in the source: \<open>np.mean\<close> rounds the sum
  of the two scores, \<open>round\<close> works on the rounded product, and a rounded value can be
  the negative zero that \<open>replace(-0, 0)\<close> turns into 0. Over \<^typ>\<open>real\<close> the sum is
  exact and there is one zero, so the model fixes where each value is written and under
  which labels, not its last digit or the sign of a zero. What follows depends only on
  the former.
\<close>

text \<open>
  C4. For a non-empty score map with distinct keys, whose first row has the keys of the map,
  whose keys stay distinct when tabs become spaces, and which scores every ordered pair of
  keys (\<open>sim\<close> is the similarity it records, with no symmetry assumed): the builder
  returns a matrix that is symmetric. For every pair of keys the entry at \<open>(a, b)\<close> and
  the entry at \<open>(b, a)\<close> exist and are equal, whatever the two directional scores are.
\<close>

theorem similarity_matrix_symmetric:
  assumes "score_dict \<noteq> []"
    and "distinct (map fst score_dict)"
    and "set (map fst (snd (hd score_dict))) = set (map fst score_dict)"
    and "inj_on replace_tab (set (map fst score_dict))"
    and "\<forall>a\<in>set (map fst score_dict). \<forall>b\<in>set (map fst score_dict).
               \<exists>off ori. getitem2 score_dict a b = Inr (sim a b, off, ori)"
  shows "\<exists>matrix. generate_similarity_matrix score_dict = Inr matrix \<and>
           (\<forall>a\<in>set (map fst score_dict). \<forall>b\<in>set (map fst score_dict).
              \<exists>v. entry matrix (replace_tab a) (replace_tab b) = Some v \<and>
                  entry matrix (replace_tab b) (replace_tab a) = Some v)"
proof -
  from matrix_builder_entries [OF assms] obtain matrix where
    g: "generate_similarity_matrix score_dict = Inr matrix" and
    e: "\<forall>a\<in>set (map fst score_dict). \<forall>b\<in>set (map fst score_dict).
              entry matrix (replace_tab a) (replace_tab b) =
                Some (round3 (1 - mean2 (sim a b) (sim b a)))"
    by blast
  have "\<exists>v. entry matrix (replace_tab a) (replace_tab b) = Some v \<and>
            entry matrix (replace_tab b) (replace_tab a) = Some v"
    if a: "a \<in> set (map fst score_dict)" and b: "b \<in> set (map fst score_dict)" for a b
  proof -
    from e a b have "entry matrix (replace_tab a) (replace_tab b) =
        Some (round3 (1 - mean2 (sim a b) (sim b a)))" by blast
    moreover from e a b have "entry matrix (replace_tab b) (replace_tab a) =
        Some (round3 (1 - mean2 (sim b a) (sim a b)))" by blast
    moreover have "mean2 (sim b a) (sim a b) = mean2 (sim a b) (sim b a)"
      by (simp add: mean2_def add.commute)
    ultimately show ?thesis by simp
  qed
  with g show ?thesis by blast
qed

text \<open>The scores of (A,B) and (B,A) differ, 0.9 and 0.7; both entries are 0.2.\<close>

theorem similarity_matrix_symmetric_witness:
  "asym_sim ''A'' ''B'' \<noteq> asym_sim ''B'' ''A'' \<and>
   generate_similarity_matrix asym_scores = Inr asym_matrix \<and>
   entry asym_matrix ''A'' ''B'' = Some (2/10) \<and>
   entry asym_matrix ''B'' ''A'' = Some (2/10) \<and>
   (\<exists>matrix. generate_similarity_matrix asym_scores = Inr matrix \<and>
           (\<forall>a\<in>set (map fst asym_scores). \<forall>b\<in>set (map fst asym_scores).
              \<exists>v. entry matrix (replace_tab a) (replace_tab b) = Some v \<and>
                  entry matrix (replace_tab b) (replace_tab a) = Some v))"
proof -
  have n: "asym_sim ''A'' ''B'' \<noteq> asym_sim ''B'' ''A''"
    by (simp add: asym_sim_def)
  have e: "entry asym_matrix ''A'' ''B'' = Some (2/10)" "entry asym_matrix ''B'' ''A'' = Some (2/10)"
    by (simp_all add: entry_def asym_matrix_def)
  from similarity_matrix_symmetric [OF asym_ne asym_dist asym_keys asym_inj asym_sc] asym_eval n e
  show ?thesis by blast
qed

subsection \<open>Claim about identifiers with a tab\<close>

text \<open>
  C10. Take any cluster of the assignment that \<open>cluster_motifs\<close> builds from a matrix of
  \<open>generate_similarity_matrix\<close>. Its member list holds row labels, in which every tab has
  become a space, so no member contains a tab. The motif list of the cluster is filtered by
  the raw identifier: a motif whose identifier contains a tab is never in it. If every motif
  whose normalised identifier is a member has a tab in its identifier, the motif list is
  empty, and \<open>generate_consensus_motif\<close> on it fails with UnboundLocalError.
\<close>

theorem tab_identifier_excluded:
  assumes "generate_similarity_matrix score_dict = Inr matrix"
    and "cluster_motifs sp matrix threshold method = Inr (lnk, cluster)"
    and "(k, value) \<in> set cluster"
  shows "(\<forall>v\<in>set value. CHR 0x09 \<notin> set v) \<and>
         (\<forall>m. CHR 0x09 \<in> set (id' m) \<longrightarrow> m \<notin> set (cluster_members motif_list value)) \<and>
         ((\<forall>m\<in>set motif_list. replace_tab (id' m) \<in> set value \<longrightarrow> CHR 0x09 \<in> set (id' m)) \<longrightarrow>
            cluster_members motif_list value = [] \<and>
            generate_consensus_motif mc (cluster_members motif_list value) similarity_dict =
              Inl UnboundLocalError)"
  using assms by (rule tab_identifiers_dropped)

text \<open>
  The motifs \<open>A<tab>x\<close> and \<open>B\<close>: the cluster of the first has the member \<open>A x\<close>, its motif
  list is empty, and the consensus of that cluster fails.
\<close>

theorem tab_identifier_excluded_witness:
  "generate_similarity_matrix tab_scores = Inr tab_matrix \<and>
   cluster_motifs example_scipy tab_matrix (1/2) ''average'' =
     Inr ((), [(''Cluster_1'', [''A x'']), (''Cluster_2'', [''B''])]) \<and>
   CHR 0x09 \<in> set (id' (mk_motif tab_id)) \<and>
   mk_motif tab_id \<notin> set (cluster_members tab_motifs [''A x'']) \<and>
   cluster_members tab_motifs [''A x''] = [] \<and>
   generate_consensus_motif example_mc (cluster_members tab_motifs [''A x'']) tab_scores =
     Inl UnboundLocalError"
proof -
  have mem: "(''Cluster_1'', [''A x'']) \<in> set [(''Cluster_1'', [''A x'']), (''Cluster_2'', [''B''])]"
    by simp
  have t: "CHR 0x09 \<in> set (id' (mk_motif tab_id))"
    by (simp add: mk_motif_def tab_id_def)
  have h: "\<forall>m\<in>set tab_motifs. replace_tab (id' m) \<in> set [''A x''] \<longrightarrow> CHR 0x09 \<in> set (id' m)"
    by (simp add: tab_motifs_def mk_motif_def tab_id_def replace_tab_def)
  from tab_identifier_excluded [OF tab_eval tab_cluster mem, of tab_motifs example_mc tab_scores]
    tab_eval tab_cluster t h
  show ?thesis by blast
qed

end
